theory Spec2Isabelle
  imports Complex_Main "HOL-Library.Sublist"
begin

section \<open>Values exchanged with the backend\<close>

text \<open>
  A JavaScript string is modelled as a list of character codes (\<open>string\<close>); \<open>length\<close>,
  \<open>take\<close> and \<open>drop\<close> stand for \<open>.length\<close>, \<open>.substring(0, n)\<close> and \<open>.slice(n)\<close>.
  The value \<open>JSON.parse\<close> returns is a \<open>json\<close>, an object being the list of its
  distinct keys with their values; a JSON number is kept as an integer, since the code
  below only tests numbers for truthiness.
\<close>

datatype json =
    JNull
  | JBool bool
  | JNum int
  | JStr string
  | JArr "json list"
  | JObj "(string \<times> json) list"

text \<open>JavaScript truthiness of a parsed JSON value.\<close>

fun truthy :: "json \<Rightarrow> bool" where
  "truthy JNull = False"
| "truthy (JBool b) = b"
| "truthy (JNum n) = (n \<noteq> 0)"
| "truthy (JStr s) = (s \<noteq> [])"
| "truthy (JArr xs) = True"
| "truthy (JObj kvs) = True"

text \<open>
  The property read \<open>data.k\<close> on a non-null value: \<open>None\<close> is \<open>undefined\<close>. Numbers,
  booleans, strings and arrays have none of the properties the code reads.
\<close>

fun getProp :: "string \<Rightarrow> json \<Rightarrow> json option" where
  "getProp k (JObj kvs) = map_of kvs k"
| "getProp k v = None"

text \<open>\<open>if (data.k)\<close>: the value of the property when it is present and truthy.\<close>

definition truthy_field :: "string \<Rightarrow> json \<Rightarrow> json option" where
  "truthy_field k d =
     (case getProp k d of
        None \<Rightarrow> None
      | Some v \<Rightarrow> if truthy v then Some v else None)"

section \<open>The streaming client \<open>step7LLMGenerateStream\<close> (api/intelligentChat.js)\<close>

text \<open>
  \<open>buffer.split('\n\n')\<close>: the separator is searched from the left, matches do not
  overlap, and the result always has at least one element.
\<close>

definition nl :: char where
  "nl = CHR 0x0A"

fun splitNN :: "string \<Rightarrow> string list" where
  "splitNN [] = [] # []"
| "splitNN [c] = [c] # []"
| "splitNN (c # d # cs) =
     (if c = nl \<and> d = nl then [] # splitNN cs
      else (case splitNN (d # cs) of
              [] \<Rightarrow> [c] # []
            | l # ls \<Rightarrow> (c # l) # ls))"

text \<open>
  What the callbacks receive. \<open>onChunk\<close> gets either the wrapper
  \<open>{ type: 'statistics', data: data.statistics }\<close> or the value of \<open>data.content\<close>;
  \<open>onError\<close> gets an \<open>Error\<close> built from \<open>data.error\<close>, the rejection of
  \<open>reader.read()\<close>, the error thrown for a response that is not OK, or the rejection of
  \<open>fetch\<close>.
\<close>

datatype chunk = StatisticsChunk json | ContentChunk json

datatype stream_error =
    EventError json
  | ReadFailure string
  | HttpFailure string
  | FetchFailure string

text \<open>
  The observable steps of one call: each \<open>reader.read()\<close>, each callback invocation,
  and the \<open>console.error\<close> of the inner \<open>catch\<close>. The three callbacks are the ones
  the two callers pass: they are not null, and they return normally.
\<close>

datatype stream_effect =
    ReaderRead
  | OnChunk chunk
  | OnDone
  | OnError stream_error
  | ConsoleError

text \<open>
  The body of \<open>for (const line of lines)\<close> for one line. The boolean is \<open>True\<close> when
  the body executes \<open>return\<close>. \<open>parse\<close> is \<open>JSON.parse\<close>, \<open>None\<close> when it throws;
  reading a property of \<open>null\<close> throws inside the same \<open>try\<close>.
\<close>

definition processLine :: "(string \<Rightarrow> json option) \<Rightarrow> string \<Rightarrow> stream_effect list \<times> bool" where
  "processLine parse line =
     (if take 6 line = ''data: '' then
        (case parse (drop 6 line) of
           None \<Rightarrow> ([ConsoleError], False)
         | Some JNull \<Rightarrow> ([ConsoleError], False)
         | Some data \<Rightarrow>
             (case truthy_field ''error'' data of
                Some e \<Rightarrow> ([OnError (EventError e)], True)
              | None \<Rightarrow>
                  (case truthy_field ''done'' data of
                     Some d \<Rightarrow> ([OnDone], True)
                   | None \<Rightarrow>
                       ((case truthy_field ''statistics'' data of
                           Some s \<Rightarrow> [OnChunk (StatisticsChunk s)]
                         | None \<Rightarrow> [])
                        @ (case truthy_field ''content'' data of
                             Some c \<Rightarrow> [OnChunk (ContentChunk c)]
                           | None \<Rightarrow> []),
                        False))))
      else ([], False))"

fun forLines :: "(string \<Rightarrow> json option) \<Rightarrow> string list \<Rightarrow> stream_effect list \<times> bool" where
  "forLines parse [] = ([], False)"
| "forLines parse (line # lines) =
     (case processLine parse line of
        (effs, True) \<Rightarrow> (effs, True)
      | (effs, False) \<Rightarrow>
          (case forLines parse lines of (effs', stop) \<Rightarrow> (effs @ effs', stop)))"

text \<open>
  How the body stream ends: \<open>read()\<close> resolves with \<open>done\<close>, rejects, or never
  settles.
\<close>

datatype stream_end = Eof | ReadRejects string | Stalls

text \<open>
  \<open>readStream\<close>: the first argument after \<open>parse\<close> is the variable \<open>buffer\<close>, the list
  holds what \<open>decoder.decode(value, { stream: true })\<close> returns for the successive
  reads. The decoder keeps an incomplete character for the next read, so the texts of the
  reads concatenate to the same text however the bytes are cut.
\<close>

fun readStream ::
  "(string \<Rightarrow> json option) \<Rightarrow> string \<Rightarrow> string list \<Rightarrow> stream_end \<Rightarrow> stream_effect list" where
  "readStream parse buffer [] Eof = [ReaderRead, OnDone]"
| "readStream parse buffer [] (ReadRejects e) = [ReaderRead, OnError (ReadFailure e)]"
| "readStream parse buffer [] Stalls = [ReaderRead]"
| "readStream parse buffer (v # rest) fin =
     ReaderRead #
     (let buffer1 = buffer @ v;
          lines = splitNN buffer1;
          buffer2 = last lines
      in case forLines parse (butlast lines) of
           (effs, True) \<Rightarrow> effs
         | (effs, False) \<Rightarrow> effs @ readStream parse buffer2 rest fin)"

datatype fetch_result =
    FetchRejects string
  | ResponseNotOk string
  | ResponseOk "string list" stream_end

definition step7LLMGenerateStream ::
  "(string \<Rightarrow> json option) \<Rightarrow> fetch_result \<Rightarrow> stream_effect list" where
  "step7LLMGenerateStream parse r =
     (case r of
        FetchRejects e \<Rightarrow> [OnError (FetchFailure e)]
      | ResponseNotOk errorDetail \<Rightarrow> [OnError (HttpFailure errorDetail)]
      | ResponseOk reads fin \<Rightarrow> readStream parse [] reads fin)"


text \<open>The callback invocations among the steps, and the two callbacks that end a session.\<close>

fun isCallback :: "stream_effect \<Rightarrow> bool" where
  "isCallback (OnChunk c) = True"
| "isCallback OnDone = True"
| "isCallback (OnError e) = True"
| "isCallback ReaderRead = False"
| "isCallback ConsoleError = False"

fun isTerminal :: "stream_effect \<Rightarrow> bool" where
  "isTerminal OnDone = True"
| "isTerminal (OnError e) = True"
| "isTerminal (OnChunk c) = False"
| "isTerminal ReaderRead = False"
| "isTerminal ConsoleError = False"

definition callbacks :: "stream_effect list \<Rightarrow> stream_effect list" where
  "callbacks effs = filter isCallback effs"

text \<open>
  The reference the fragmented reads are compared with: the loop body run once over the
  complete events of the whole text, followed by what the end of the stream triggers.
\<close>

fun atEnd :: "stream_end \<Rightarrow> stream_effect list" where
  "atEnd Eof = [OnDone]"
| "atEnd (ReadRejects e) = [OnError (ReadFailure e)]"
| "atEnd Stalls = []"

definition wholeText ::
  "(string \<Rightarrow> json option) \<Rightarrow> string \<Rightarrow> stream_end \<Rightarrow> stream_effect list" where
  "wholeText parse text fin =
     (case forLines parse (butlast (splitNN text)) of
        (effs, True) \<Rightarrow> callbacks effs
      | (effs, False) \<Rightarrow> callbacks effs @ atEnd fin)"

text \<open>
  The specification's reading of the stream: the string \<open>content\<close> of a \<open>data:\<close>
  event, and whether an event carries a truthy \<open>error\<close> or \<open>done\<close>. \<open>specText\<close> is the
  concatenation, in arrival order, of the string contents of the complete events that come
  before the first such event.
\<close>

definition eventContent :: "(string \<Rightarrow> json option) \<Rightarrow> string \<Rightarrow> string" where
  "eventContent parse line =
     (if take 6 line = ''data: '' then
        (case parse (drop 6 line) of
           Some (JObj kvs) \<Rightarrow> (case map_of kvs ''content'' of Some (JStr s) \<Rightarrow> s | _ \<Rightarrow> [])
         | _ \<Rightarrow> [])
      else [])"

definition endsStream :: "(string \<Rightarrow> json option) \<Rightarrow> string \<Rightarrow> bool" where
  "endsStream parse line =
     (take 6 line = ''data: '' \<and>
      (case parse (drop 6 line) of
         Some (JObj kvs) \<Rightarrow>
           truthy_field ''error'' (JObj kvs) \<noteq> None \<or> truthy_field ''done'' (JObj kvs) \<noteq> None
       | _ \<Rightarrow> False))"

text \<open>The truthy \<open>error\<close> field of a \<open>data:\<close> event, if the line is such an event.\<close>

definition errorEvent :: "(string \<Rightarrow> json option) \<Rightarrow> string \<Rightarrow> json option" where
  "errorEvent parse line =
     (if take 6 line = ''data: '' then
        (case parse (drop 6 line) of
           Some (JObj kvs) \<Rightarrow> truthy_field ''error'' (JObj kvs)
         | _ \<Rightarrow> None)
      else None)"


section \<open>The consumers of the stream\<close>

text \<open>
  The texts shown to the user are Chinese literals in the source; the model writes them
  in English. \<open>jsString\<close> is JavaScript's \<open>String(v)\<close>, used by \<open>new Error(data.error)\<close>
  (a number is printed in full; JavaScript switches to the exponent form from 21 digits).
\<close>

fun digits :: "nat \<Rightarrow> string" where
  "digits n = (if n < 10 then [char_of (48 + n)] else digits (n div 10) @ [char_of (48 + n mod 10)])"

fun joinComma :: "string list \<Rightarrow> string" where
  "joinComma [] = []"
| "joinComma [s] = s"
| "joinComma (s # t # ss) = s @ '','' @ joinComma (t # ss)"

fun jsString :: "json \<Rightarrow> string" where
  "jsString JNull = ''null''"
| "jsString (JBool b) = (if b then ''true'' else ''false'')"
| "jsString (JNum n) = (if n < 0 then CHR ''-'' # digits (nat (- n)) else digits (nat n))"
| "jsString (JStr s) = s"
| "jsString (JArr xs) = joinComma (map (\<lambda>x. if x = JNull then [] else jsString x) xs)"
| "jsString (JObj kvs) = ''[object Object]''"

fun errorMessage :: "stream_error \<Rightarrow> string" where
  "errorMessage (EventError v) = jsString v"
| "errorMessage (ReadFailure m) = m"
| "errorMessage (HttpFailure m) = m"
| "errorMessage (FetchFailure m) = m"

text \<open>\<open>error.message || '...'\<close> with the fallback text "unknown error".\<close>

definition messageOrUnknown :: "stream_error \<Rightarrow> string" where
  "messageOrUnknown e = (if errorMessage e = [] then ''unknown error'' else errorMessage e)"

datatype notice =
    MessageError string
  | MessageWarning string
  | MessageSuccess string
  | MessageInfo string
  | ConsoleErrorLog

text \<open>
  \<open>typeof chunk === 'object' && chunk.type === 'statistics'\<close>: true of the wrapper the
  client builds, and of a \<open>content\<close> value that is itself such an object.
\<close>

fun isStatistics :: "chunk \<Rightarrow> bool" where
  "isStatistics (StatisticsChunk s) = True"
| "isStatistics (ContentChunk (JObj kvs)) = (map_of kvs ''type'' = Some (JStr ''statistics''))"
| "isStatistics (ContentChunk v) = False"

text \<open>What is fed to a consumer: a firing of its typewriter timer, or a step of the stream.\<close>

datatype ui_step = TimerTick | Stream stream_effect

fun streamOf :: "ui_step list \<Rightarrow> stream_effect list" where
  "streamOf [] = []"
| "streamOf (TimerTick # steps) = streamOf steps"
| "streamOf (Stream e # steps) = e # streamOf steps"

subsection \<open>The LLM generation tab (\<open>handleExecute\<close>, streaming branch)\<close>

text \<open>
  The closure variables \<open>pendingText\<close> and \<open>displayedLength\<close> and the refs
  \<open>streamingContent\<close>, \<open>isStreaming\<close> and \<open>executionResult\<close> (\<open>None\<close> is \<open>null\<close>).
  Of \<open>executionResult\<close> only \<open>generated_document\<close> is kept: the statistics branch of
  \<open>onChunk\<close> writes \<open>llm_statistics\<close> and nothing else (if it throws on a chunk without
  \<open>data\<close>, the client's \<open>try\<close> catches it). \<open>notices\<close> collects the calls of
  \<open>message.*\<close> and \<open>console.error\<close> in order. A firing of the timer is a step
  \<open>TimerTick\<close>; the timer is re-armed by \<open>setTimeout\<close> and cleared by \<open>onDone\<close> and
  \<open>onError\<close>, the model lets it fire at any time.
\<close>

record exec_result =
  generated_document :: string

record llm_tab =
  pendingText :: string
  displayedLength :: nat
  streamingContent :: string
  isStreaming :: bool
  executionResult :: "exec_result option"
  notices :: "notice list"

definition streamingStart :: llm_tab where
  "streamingStart =
     \<lparr> pendingText = [], displayedLength = 0, streamingContent = [], isStreaming = True,
       executionResult = Some \<lparr> generated_document = [] \<rparr>, notices = [] \<rparr>"

definition typewriterEffect :: "llm_tab \<Rightarrow> llm_tab" where
  "typewriterEffect st =
     (if displayedLength st < length (pendingText st) then
        (let chunkSize = min 3 (length (pendingText st) - displayedLength st)
         in st \<lparr> streamingContent := take (displayedLength st + chunkSize) (pendingText st),
                 displayedLength := displayedLength st + chunkSize \<rparr>)
      else st)"

definition onChunk :: "chunk \<Rightarrow> llm_tab \<Rightarrow> llm_tab" where
  "onChunk c st =
     (if isStatistics c then st
      else (case c of
              ContentChunk (JStr s) \<Rightarrow> st \<lparr> pendingText := pendingText st @ s \<rparr>
            | _ \<Rightarrow> st))"

definition onDone :: "llm_tab \<Rightarrow> llm_tab" where
  "onDone st =
     (let st1 = st \<lparr> isStreaming := False,
                     streamingContent := pendingText st,
                     displayedLength := length (pendingText st) \<rparr>;
          st2 = (case executionResult st1 of
                   None \<Rightarrow> st1
                 | Some r \<Rightarrow>
                     st1 \<lparr> executionResult :=
                             Some (r \<lparr> generated_document := streamingContent st1 \<rparr>) \<rparr>)
      in st2 \<lparr> notices := notices st2 @ [MessageSuccess ''LLM generation finished''] \<rparr>)"

definition onError :: "stream_error \<Rightarrow> llm_tab \<Rightarrow> llm_tab" where
  "onError e st =
     st \<lparr> isStreaming := False,
          notices := notices st @
            [ConsoleErrorLog, MessageError (''LLM generation failed: '' @ messageOrUnknown e)],
          executionResult := None \<rparr>"

fun tabStep :: "ui_step \<Rightarrow> llm_tab \<Rightarrow> llm_tab" where
  "tabStep TimerTick st = typewriterEffect st"
| "tabStep (Stream (OnChunk c)) st = onChunk c st"
| "tabStep (Stream OnDone) st = onDone st"
| "tabStep (Stream (OnError e)) st = onError e st"
| "tabStep (Stream ReaderRead) st = st"
| "tabStep (Stream ConsoleError) st = st"

fun runTab :: "ui_step list \<Rightarrow> llm_tab \<Rightarrow> llm_tab" where
  "runTab [] st = st"
| "runTab (s # steps) st = runTab steps (tabStep s st)"

text \<open>
  The template shows the answer card only while \<open>executionResult\<close> is not null, with
  the text \<open>streamingContent || executionResult.generated_document || ''\<close>.
\<close>

definition renderedAnswer :: "llm_tab \<Rightarrow> string option" where
  "renderedAnswer st =
     (case executionResult st of
        None \<Rightarrow> None
      | Some r \<Rightarrow>
          Some (if streamingContent st \<noteq> [] then streamingContent st else generated_document r))"

subsection \<open>The knowledge-base chat (\<open>handleSendMessage\<close>, conversation mode)\<close>

record chat_message =
  chat_content :: string
  chat_streamingContent :: string
  chat_isStreaming :: bool
  chat_llmStatistics :: "json option"
  chat_pendingText :: string
  chat_displayedLength :: nat
  chat_notices :: "notice list"

definition chatStart :: chat_message where
  "chatStart =
     \<lparr> chat_content = [], chat_streamingContent = [], chat_isStreaming = True,
       chat_llmStatistics = None, chat_pendingText = [], chat_displayedLength = 0,
       chat_notices = [] \<rparr>"

definition chatTypewriterEffect :: "chat_message \<Rightarrow> chat_message" where
  "chatTypewriterEffect m =
     (if chat_displayedLength m < length (chat_pendingText m) then
        (let chunkSize = min 3 (length (chat_pendingText m) - chat_displayedLength m)
         in m \<lparr> chat_streamingContent :=
                   take (chat_displayedLength m + chunkSize) (chat_pendingText m),
                chat_displayedLength := chat_displayedLength m + chunkSize \<rparr>)
      else m)"

text \<open>\<open>chunk.data\<close> of a chunk the statistics test accepts.\<close>

fun chunkData :: "chunk \<Rightarrow> json option" where
  "chunkData (StatisticsChunk s) = Some s"
| "chunkData (ContentChunk v) = getProp ''data'' v"

definition chatOnChunk :: "chunk \<Rightarrow> chat_message \<Rightarrow> chat_message" where
  "chatOnChunk c m =
     (if isStatistics c then m \<lparr> chat_llmStatistics := chunkData c \<rparr>
      else (case c of
              ContentChunk (JStr s) \<Rightarrow> m \<lparr> chat_pendingText := chat_pendingText m @ s \<rparr>
            | _ \<Rightarrow> m))"

definition chatOnDone :: "chat_message \<Rightarrow> chat_message" where
  "chatOnDone m =
     m \<lparr> chat_isStreaming := False,
         chat_streamingContent := chat_pendingText m,
         chat_content := chat_pendingText m \<rparr>"

definition chatOnError :: "stream_error \<Rightarrow> chat_message \<Rightarrow> chat_message" where
  "chatOnError e m =
     m \<lparr> chat_isStreaming := False,
         chat_notices := chat_notices m @
           [ConsoleErrorLog, MessageError (''Generation failed: '' @ messageOrUnknown e)],
         chat_content := ''Sorry, generation failed: '' @ messageOrUnknown e,
         chat_streamingContent := [] \<rparr>"

subsection \<open>Auxiliary notions for the streaming session\<close>

text \<open>The text a stream step contributes to \<open>pendingText\<close>: the string handed to \<open>onChunk\<close>.\<close>

fun textOf :: "stream_effect \<Rightarrow> string" where
  "textOf (OnChunk (ContentChunk (JStr s))) = s"
| "textOf e = []"

definition deliveredText :: "stream_effect list \<Rightarrow> string" where
  "deliveredText effs = concat (map textOf effs)"


definition tabInv :: "llm_tab \<Rightarrow> bool" where
  "tabInv st =
     (displayedLength st \<le> length (pendingText st) \<and>
      streamingContent st = take (displayedLength st) (pendingText st))"

subsection \<open>\<open>handleClear\<close> of the LLM generation tab\<close>

text \<open>
  The Clear button is disabled only while \<open>executing\<close> is true, and \<open>handleExecute\<close>
  sets \<open>executing\<close> back to false as soon as it has started the stream, so the button can
  be pressed while a session is in progress. \<open>handleClear\<close> calls
  \<open>streamingAbortController.value.abort()\<close>, but the controller's signal is never given
  to \<open>fetch\<close>: the stream goes on. It does not clear the typewriter timer either, and
  the closure variables \<open>pendingText\<close> and \<open>displayedLength\<close> are out of its reach.
\<close>

definition handleClear :: "llm_tab \<Rightarrow> llm_tab" where
  "handleClear st =
     st \<lparr> executionResult := None,
          streamingContent := [],
          isStreaming := False,
          notices := notices st @ [MessageSuccess ''Results cleared''] \<rparr>"

datatype tab_event = SessionStep ui_step | HandleClear

fun tabEvent :: "tab_event \<Rightarrow> llm_tab \<Rightarrow> llm_tab" where
  "tabEvent (SessionStep s) st = tabStep s st"
| "tabEvent HandleClear st = handleClear st"

fun runEvents :: "tab_event list \<Rightarrow> llm_tab \<Rightarrow> llm_tab" where
  "runEvents [] st = st"
| "runEvents (ev # evs) st = runEvents evs (tabEvent ev st)"

text \<open>
  A session in which nine characters arrive, the timer fires twice and the user then
  presses Clear.
\<close>

definition clearedSession :: "tab_event list" where
  "clearedSession =
     [SessionStep (Stream ReaderRead),
      SessionStep (Stream (OnChunk (ContentChunk (JStr ''abcdefghi'')))),
      SessionStep TimerTick, SessionStep TimerTick, HandleClear]"

text \<open>\<open>JSON.parse\<close> restricted to the payloads of the examples below.\<close>

definition demoParse :: "string \<Rightarrow> json option" where
  "demoParse s =
     (if s = ''{\"content\":\"Hi\"}'' then Some (JObj [(''content'', JStr ''Hi'')])
      else if s = ''{\"content\":\"!\"}'' then Some (JObj [(''content'', JStr ''!'')])
      else if s = ''{\"done\":true}'' then Some (JObj [(''done'', JBool True)])
      else if s = ''{\"error\":\"boom\"}'' then Some (JObj [(''error'', JStr ''boom'')])
      else None)"

text \<open>
  An example session: the text arrives in two reads that cut the first event's separator in
  half, and the typewriter timer fires in between.
\<close>

definition demoReads :: "string list" where
  "demoReads = [''data: {\"content\":\"Hi\"}'' @ [nl], [nl] @ ''data: {\"done\":true}'' @ [nl, nl]]"


text \<open>An example session that fails: one chunk, then an event with an \<open>error\<close> field.\<close>

definition failReads :: "string list" where
  "failReads = [''data: {\"content\":\"Hi\"}'' @ [nl, nl], ''data: {\"error\":\"boom\"}'' @ [nl, nl]]"

definition failSteps :: "ui_step list" where
  "failSteps =
     [Stream ReaderRead, Stream (OnChunk (ContentChunk (JStr ''Hi''))), TimerTick,
      Stream ReaderRead, Stream (OnError (EventError (JStr ''boom'')))]"

text \<open>
  An example session in which an event with an \<open>error\<close> field is followed by more
  events, in the same read and in a later one.
\<close>

definition endedReads :: "string list" where
  "endedReads =
     [''data: {\"error\":\"boom\"}'' @ [nl, nl] @ ''data: {\"content\":\"Hi\"}'' @ [nl, nl],
      ''data: {\"content\":\"!\"}'' @ [nl, nl]]"

section \<open>\<open>convertV4ResultsToLLMFormat\<close> (LLM generation tab and knowledge-base chat)\<close>

text \<open>
  A JavaScript number is modelled as a value of type \<open>'n option\<close>: \<open>None\<close> is NaN, and
  \<open>'n\<close> is the linearly ordered type of the other numbers. The score of an item of the
  response is what \<open>item.score\<close> converts to when it is divided: NaN when the field is
  missing or is not numeric (\<open>undefined / 100\<close> is NaN). The division \<open>x / 100\<close> of
  doubles rounds; it is the parameter \<open>div100\<close> of the model, and the theorems hold for
  every such function. The other optional fields are \<open>None\<close> when missing; for an
  entity they are those of \<open>entity.properties\<close>.
\<close>

record 'n chunk_result =
  c_score :: "'n option"
  c_doc_id :: "string option"
  c_group_id :: "string option"
  c_version :: "string option"

record 'n entity =
  e_score :: "'n option"
  e_doc_id :: "string option"
  e_group_id :: "string option"
  e_version :: "string option"

text \<open>
  \<open>stage1?.chunk_results\<close>, \<open>stage2?.graphiti?.entities\<close> and
  \<open>stage2?.cognee?.entities\<close>: \<open>None\<close> when a link of the chain is missing.
\<close>

record 'n retrieval =
  chunk_results :: "'n chunk_result list option"
  graphiti_entities :: "'n entity list option"
  cognee_entities :: "'n entity list option"

text \<open>
  An item handed to the LLM. The fields \<open>name\<close> and \<open>content\<close> (formatted texts) and the
  identifiers copied from the source item (\<open>chunk_index\<close>, \<open>uuid\<close>, \<open>id\<close>, \<open>type\<close>) are
  left out: neither the order nor the number of the items depends on them.
\<close>

record 'n llm_item =
  source :: string
  source_channel :: string
  score :: "'n option"
  doc_id :: string
  version :: string
  group_id :: "string option"

text \<open>\<open>a || b\<close> for an optional string \<open>a\<close>: a missing or empty \<open>a\<close> is falsy.\<close>

definition orElse :: "string option \<Rightarrow> string \<Rightarrow> string" where
  "orElse a b = (case a of None \<Rightarrow> b | Some s \<Rightarrow> if s = [] then b else s)"

text \<open>\<open>x / 100\<close>: NaN stays NaN.\<close>

definition divide100 :: "('n \<Rightarrow> 'n) \<Rightarrow> 'n option \<Rightarrow> 'n option" where
  "divide100 div100 x = map_option div100 x"

definition fromChunk :: "('n \<Rightarrow> 'n) \<Rightarrow> 'n chunk_result \<Rightarrow> 'n llm_item" where
  "fromChunk div100 c =
     \<lparr> source = ''DocumentChunk'', source_channel = ''DocumentChunk'',
       score = divide100 div100 (c_score c),
       doc_id = orElse (c_doc_id c) (orElse (c_group_id c) ''unknown''),
       version = orElse (c_version c) ''unknown'',
       group_id = c_group_id c \<rparr>"

definition fromGraphiti :: "('n \<Rightarrow> 'n) \<Rightarrow> 'n entity \<Rightarrow> 'n llm_item" where
  "fromGraphiti div100 e =
     \<lparr> source = ''Graphiti'', source_channel = ''Entity'',
       score = divide100 div100 (e_score e),
       doc_id = orElse (e_doc_id e) (orElse (e_group_id e) ''unknown''),
       version = orElse (e_version e) ''unknown'',
       group_id = e_group_id e \<rparr>"

definition fromCognee :: "('n \<Rightarrow> 'n) \<Rightarrow> 'n entity \<Rightarrow> 'n llm_item" where
  "fromCognee div100 e =
     \<lparr> source = ''Cognee'', source_channel = ''Entity'',
       score = divide100 div100 (e_score e),
       doc_id = orElse (e_doc_id e) (orElse (e_group_id e) ''unknown''),
       version = orElse (e_version e) ''unknown'',
       group_id = e_group_id e \<rparr>"

text \<open>The three loops that push onto \<open>results\<close>.\<close>

definition pushed :: "('n \<Rightarrow> 'n) \<Rightarrow> 'n retrieval \<Rightarrow> 'n llm_item list" where
  "pushed div100 r =
     (case chunk_results r of None \<Rightarrow> [] | Some cs \<Rightarrow> map (fromChunk div100) cs)
     @ (case graphiti_entities r of None \<Rightarrow> [] | Some es \<Rightarrow> map (fromGraphiti div100) es)
     @ (case cognee_entities r of None \<Rightarrow> [] | Some es \<Rightarrow> map (fromCognee div100) es)"

text \<open>
  The comparator \<open>(a, b) => b.score - a.score\<close>, by the sign of its result: positive when
  \<open>b\<close> has the greater score, negative when \<open>a\<close> has, zero when the scores are equal. With
  a NaN score the difference is NaN, which \<open>sort\<close> takes as zero.
\<close>

definition compareFn :: "('n::linorder) llm_item \<Rightarrow> 'n llm_item \<Rightarrow> int" where
  "compareFn a b =
     (case (score a, score b) of
        (Some x, Some y) \<Rightarrow> if x < y then 1 else if y < x then - 1 else 0
      | _ \<Rightarrow> 0)"

text \<open>
  \<open>results.sort(compareFn)\<close> is a stable sort: an element moves behind another only
  when the comparator puts it there. The model is the stable insertion sort. With a NaN
  score the comparator is not consistent and JavaScript leaves the order to the engine;
  the theorems below rely on the model's order only for lists without NaN.
\<close>

fun insertSorted :: "('n::linorder) llm_item \<Rightarrow> 'n llm_item list \<Rightarrow> 'n llm_item list" where
  "insertSorted x [] = [x]"
| "insertSorted x (y # ys) =
     (if compareFn x y > 0 then y # insertSorted x ys else x # y # ys)"

definition sortByScoreDesc :: "('n::linorder) llm_item list \<Rightarrow> 'n llm_item list" where
  "sortByScoreDesc xs = foldr insertSorted xs []"

text \<open>\<open>results.slice(0, n)\<close>: a negative \<open>n\<close> counts from the end of the array.\<close>

definition slice0 :: "'a list \<Rightarrow> int \<Rightarrow> 'a list" where
  "slice0 xs n =
     (if n < 0 then take (nat (max (int (length xs) + n) 0)) xs
      else take (nat n) xs)"

definition convertV4ResultsToLLMFormat ::
  "('n \<Rightarrow> 'n) \<Rightarrow> ('n::linorder) retrieval \<Rightarrow> int \<Rightarrow> 'n llm_item list" where
  "convertV4ResultsToLLMFormat div100 retrievalResult maxResults =
     slice0 (sortByScoreDesc (pushed div100 retrievalResult)) maxResults"







text \<open>
  A division that rounds, on integer scores: two chunks whose scores differ and whose
  quotients are equal.
\<close>

definition roundingDiv100 :: "int \<Rightarrow> int" where
  "roundingDiv100 x = x div 100"

definition demoCloseScores :: "int retrieval" where
  "demoCloseScores =
     \<lparr> chunk_results = Some
         [\<lparr> c_score = Some 7010, c_doc_id = Some ''d1'', c_group_id = None, c_version = None \<rparr>,
          \<lparr> c_score = Some 7090, c_doc_id = Some ''d2'', c_group_id = None, c_version = None \<rparr>],
       graphiti_entities = None,
       cognee_entities = None \<rparr>"

section \<open>Handlers that call the backend\<close>

text \<open>
  A handler is modelled by the sequence of its observable steps, as a function of what the
  backend answers and of what the user chooses in a dialog. A rejected promise carries an
  error with \<open>err.response?.data?.detail\<close> (\<open>None\<close> when a link of the chain is missing)
  and \<open>err.message\<close>.
\<close>

record api_error =
  detail :: "string option"
  message :: string

type_synonym 'a response = "api_error + 'a"

text \<open>\<open>detail || err.message\<close>, \<open>err.message || '...'\<close> and \<open>detail || err.message || '...'\<close>.\<close>

definition detailOrMessage :: "api_error \<Rightarrow> string" where
  "detailOrMessage e = orElse (detail e) (message e)"

definition messageOrFallback :: "api_error \<Rightarrow> string" where
  "messageOrFallback e = (if message e = [] then ''unknown error'' else message e)"

definition detailOrMessageOrFallback :: "api_error \<Rightarrow> string" where
  "detailOrMessageOrFallback e = orElse (detail e) (messageOrFallback e)"

datatype endpoint =
    Step1GraphitiEpisode
  | Step2CogneeBuild
  | DeleteGraphitiGraph
  | DeleteCogneeGraph
  | DeleteKnowledgeBaseDocument
  | GetGraphitiResult
  | GetGraphitiGraph
  | GetCogneeGraph
  | GetChunksCogneeMapping
  | GetKnowledgeBaseDocuments
  | PreviewEpisodeBody
  | SmartRetrieval "(string \<times> json) list"

datatype choice = Ok | Cancel

text \<open>
  \<open>ModalConfirm\<close> is the call of \<open>Modal.confirm\<close>; \<open>UserOk\<close> and \<open>UserCancel\<close> are the
  user's answer, which runs \<open>onOk\<close> or \<open>onCancel\<close>. \<open>SetExecuting b\<close> is
  \<open>executing.value = b\<close>.
\<close>

datatype ui_effect =
    ApiCall endpoint
  | ModalConfirm
  | UserOk
  | UserCancel
  | Notice notice
  | SetExecuting bool

fun isDelete :: "endpoint \<Rightarrow> bool" where
  "isDelete DeleteGraphitiGraph = True"
| "isDelete DeleteCogneeGraph = True"
| "isDelete DeleteKnowledgeBaseDocument = True"
| "isDelete ep = False"

fun apiCalls :: "ui_effect list \<Rightarrow> endpoint list" where
  "apiCalls [] = []"
| "apiCalls (ApiCall ep # effs) = ep # apiCalls effs"
| "apiCalls (eff # effs) = apiCalls effs"

text \<open>The value of \<open>executing\<close> after the steps, starting from \<open>b\<close>.\<close>

fun executingAfter :: "bool \<Rightarrow> ui_effect list \<Rightarrow> bool" where
  "executingAfter b [] = b"
| "executingAfter b (SetExecuting b' # effs) = executingAfter b' effs"
| "executingAfter b (eff # effs) = executingAfter b effs"

subsection \<open>The Graphiti tab\<close>

text \<open>
  The fields read from the response of \<open>step1GraphitiEpisode\<close> or \<open>step2CogneeBuild\<close>:
  \<open>needs_confirmation === true\<close>, \<open>success === false\<close>, \<open>message\<close> and whether
  \<open>group_id\<close> is truthy (\<open>needs_confirmation\<close> is a JSON boolean or missing); and from
  the response of \<open>getGraphitiResult\<close>.
\<close>

record build_response =
  needs_confirmation :: bool
  success_is_false :: bool
  build_message :: "string option"
  build_has_group_id :: bool

record graphiti_summary =
  summary_success :: bool
  summary_has_group_id :: bool
  summary_message :: "string option"

text \<open>What the backend answers after a build that went through.\<close>

record graphiti_post =
  resultRes :: "graphiti_summary response"
  graphRes :: "unit response"

definition fetchGraphData :: "unit response \<Rightarrow> ui_effect list" where
  "fetchGraphData r =
     ApiCall GetGraphitiGraph #
     (case r of
        Inr g \<Rightarrow> [Notice (MessageSuccess ''Graph loaded'')]
      | Inl err \<Rightarrow> [Notice (MessageError (''Graph loading failed: '' @ detailOrMessage err))])"

text \<open>The part of \<open>executeGraphitiWithMode\<close> after the two checks of the response.\<close>

definition afterGraphitiBuild :: "build_response \<Rightarrow> graphiti_post \<Rightarrow> ui_effect list" where
  "afterGraphitiBuild res post =
     Notice (MessageSuccess ''Processed, loading the result summary'') #
     ApiCall GetGraphitiResult #
     (case resultRes post of
        Inr resultRes' \<Rightarrow>
          (if summary_success resultRes' then
             Notice (MessageSuccess ''Result summary loaded, loading the graph'') #
             (if summary_has_group_id resultRes' then fetchGraphData (graphRes post) else [])
           else
             Notice (MessageWarning ''Could not load the result summary, using the basic information'') #
             (if build_has_group_id res then fetchGraphData (graphRes post) else []))
      | Inl err \<Rightarrow>
          Notice (MessageWarning (''Could not load the result summary: '' @ detailOrMessage err)) #
          (if build_has_group_id res then fetchGraphData (graphRes post) else []))
     @ [SetExecuting False]"

text \<open>
  \<open>executeGraphitiWithMode\<close>. The lists hold the successive answers to
  \<open>step1GraphitiEpisode\<close>, the successive choices in the confirmation dialog and the
  successive answers to \<open>deleteGraphitiGraph\<close>; where a list is exhausted the handler
  waits for an answer that does not come.
\<close>

fun executeGraphitiWithMode ::
  "build_response response list \<Rightarrow> choice list \<Rightarrow> unit response list \<Rightarrow> graphiti_post
     \<Rightarrow> ui_effect list" where
  "executeGraphitiWithMode [] choices deletes post = [ApiCall Step1GraphitiEpisode]"
| "executeGraphitiWithMode (Inl err # builds) choices deletes post =
     [ApiCall Step1GraphitiEpisode,
      Notice (MessageError (''Execution failed: '' @ detailOrMessage err)),
      SetExecuting False]"
| "executeGraphitiWithMode (Inr res # builds) choices deletes post =
     ApiCall Step1GraphitiEpisode #
     (if needs_confirmation res then
        ModalConfirm # SetExecuting False # SetExecuting False #
        (case choices of
           [] \<Rightarrow> []
         | Cancel # choices' \<Rightarrow> [UserCancel, SetExecuting False]
         | Ok # choices' \<Rightarrow>
             UserOk # SetExecuting True # ApiCall DeleteGraphitiGraph #
             (case deletes of
                [] \<Rightarrow> []
              | Inl err # deletes' \<Rightarrow>
                  [Notice (MessageError (''Delete failed: '' @ detailOrMessage err)),
                   SetExecuting False]
              | Inr u # deletes' \<Rightarrow>
                  Notice (MessageSuccess ''Deleted the old Episode, rebuilding'') #
                  executeGraphitiWithMode builds choices' deletes' post))
      else if success_is_false res then
        [Notice ConsoleErrorLog,
         Notice (MessageError (orElse (build_message res) ''Execution failed'')),
         SetExecuting False, SetExecuting False]
      else afterGraphitiBuild res post)"

text \<open>
  \<open>handleExecuteGraphiti\<close>: \<open>templateJsonOk\<close> tells whether \<open>templateConfigJson\<close> is
  empty or parses.
\<close>

definition handleExecuteGraphiti ::
  "nat option \<Rightarrow> bool \<Rightarrow> build_response response list \<Rightarrow> choice list \<Rightarrow> unit response list
     \<Rightarrow> graphiti_post \<Rightarrow> ui_effect list" where
  "handleExecuteGraphiti selectedDocumentId templateJsonOk builds choices deletes post =
     (if selectedDocumentId = None then
        [Notice (MessageWarning ''Please select a document first'')]
      else
        SetExecuting True #
        (if \<not> templateJsonOk then
           [Notice (MessageError ''Template JSON format error''), SetExecuting False]
         else executeGraphitiWithMode builds choices deletes post))"

text \<open>
  \<open>handleDeleteGraph\<close> of the Graphiti tab. \<open>hasGroupId\<close> is
  \<open>executionResult.value?.group_id\<close> being truthy; \<open>deleteSuccess\<close> in the answer of the
  delete call is \<open>res.success\<close>. The choice is \<open>None\<close> while the dialog stays open.
\<close>

definition confirmDeleteGraphiti :: "choice option \<Rightarrow> bool response \<Rightarrow> ui_effect list" where
  "confirmDeleteGraphiti choice deleteRes =
     ModalConfirm #
     (case choice of
        None \<Rightarrow> []
      | Some Cancel \<Rightarrow> [UserCancel]
      | Some Ok \<Rightarrow>
          UserOk # ApiCall DeleteGraphitiGraph #
          (case deleteRes of
             Inr deleteSuccess \<Rightarrow>
               (if deleteSuccess then [Notice (MessageSuccess ''Graph deleted'')]
                else [Notice (MessageWarning ''Graph partly deleted'')])
           | Inl err \<Rightarrow>
               [Notice (MessageError (''Graph deletion failed: '' @ detailOrMessage err))]))"

definition handleDeleteGraph_Graphiti ::
  "nat option \<Rightarrow> bool \<Rightarrow> graphiti_summary response \<Rightarrow> choice option \<Rightarrow> bool response
     \<Rightarrow> ui_effect list" where
  "handleDeleteGraph_Graphiti selectedDocumentId hasGroupId res choice deleteRes =
     (if selectedDocumentId = None then
        [Notice (MessageWarning ''Please select a document first'')]
      else if \<not> hasGroupId then
        ApiCall GetGraphitiResult #
        (case res of
           Inr res' \<Rightarrow>
             (if summary_success res' \<and> summary_has_group_id res' then
                confirmDeleteGraphiti choice deleteRes
              else [Notice (MessageWarning ''Document not processed or without group_id'')])
         | Inl err \<Rightarrow>
             [Notice (MessageError (''Could not get the execution result: '' @ detailOrMessage err))])
      else confirmDeleteGraphiti choice deleteRes)"

text \<open>\<open>handleLoadEpisodeBody\<close> and \<open>handleDocumentChange\<close> of the Graphiti tab.\<close>

definition handleLoadEpisodeBody :: "nat option \<Rightarrow> unit response \<Rightarrow> ui_effect list" where
  "handleLoadEpisodeBody selectedDocumentId res =
     (if selectedDocumentId = None then []
      else
        ApiCall PreviewEpisodeBody #
        (case res of
           Inr body \<Rightarrow> []
         | Inl err \<Rightarrow> [Notice (MessageError ''Failed to load Episode Body'')]))"

text \<open>
  \<open>handleDocumentChange\<close> starts \<open>handleLoadEpisodeBody\<close> without awaiting it and then
  awaits \<open>getGraphitiResult\<close>; the steps of the former are listed first. The \<open>catch\<close> of
  the latter call only resets two refs.
\<close>

definition handleDocumentChange ::
  "nat option \<Rightarrow> unit response \<Rightarrow> graphiti_summary response \<Rightarrow> ui_effect list" where
  "handleDocumentChange val bodyRes res =
     (if val = None then []
      else
        handleLoadEpisodeBody val bodyRes @
        ApiCall GetGraphitiResult #
        (case res of
           Inr res' \<Rightarrow>
             (if summary_has_group_id res' then []
              else (case summary_message res' of
                      None \<Rightarrow> []
                    | Some m \<Rightarrow> if m = [] then [] else [Notice (MessageInfo m)]))
         | Inl err \<Rightarrow> []))"

subsection \<open>The Cognee tab\<close>

record cognee_post =
  cognee_has_group_id :: bool
  cogneeGraphRes :: "unit response"

text \<open>
  The success path of \<open>handleExecute\<close>: a rejection of \<open>getCogneeGraph\<close> reaches the outer
  \<open>catch\<close>; \<open>loadChunksCogneeMapping\<close> swallows a rejection of its call.
\<close>

definition afterCogneeBuild :: "cognee_post \<Rightarrow> ui_effect list" where
  "afterCogneeBuild post =
     Notice (MessageSuccess ''Cognee processing finished'') #
     (if cognee_has_group_id post then
        ApiCall GetCogneeGraph #
        (case cogneeGraphRes post of
           Inr g \<Rightarrow> [ApiCall GetChunksCogneeMapping]
         | Inl err \<Rightarrow> [Notice (MessageError (''Execution failed: '' @ messageOrFallback err))])
      else [ApiCall GetChunksCogneeMapping])
     @ [SetExecuting False]"

text \<open>
  \<open>handleExecute(skipConfirmation = false)\<close> of the Cognee tab. \<open>configNotices\<close> and
  \<open>configValid\<close> stand for what the validation of the Cognify and Memify configuration
  shows and returns. After a confirmed delete the handler calls itself with
  \<open>skipConfirmation = true\<close>.
\<close>

fun handleExecute_Cognee ::
  "bool \<Rightarrow> nat option \<Rightarrow> notice list \<Rightarrow> bool \<Rightarrow> build_response response list \<Rightarrow> choice list
     \<Rightarrow> unit response list \<Rightarrow> cognee_post \<Rightarrow> ui_effect list" where
  "handleExecute_Cognee skipConfirmation None configNotices configValid builds choices deletes post =
     [Notice (MessageWarning ''Please select a document first'')]"
| "handleExecute_Cognee skipConfirmation (Some d) configNotices configValid [] choices deletes post =
     SetExecuting True # map Notice configNotices @
     (if \<not> configValid then [SetExecuting False, SetExecuting False]
      else [ApiCall Step2CogneeBuild])"
| "handleExecute_Cognee skipConfirmation (Some d) configNotices configValid (Inl err # builds)
       choices deletes post =
     SetExecuting True # map Notice configNotices @
     (if \<not> configValid then [SetExecuting False, SetExecuting False]
      else [ApiCall Step2CogneeBuild,
            Notice (MessageError (''Execution failed: '' @ messageOrFallback err)),
            SetExecuting False])"
| "handleExecute_Cognee skipConfirmation (Some d) configNotices configValid (Inr result # builds)
       choices deletes post =
     SetExecuting True # map Notice configNotices @
     (if \<not> configValid then [SetExecuting False, SetExecuting False]
      else
        ApiCall Step2CogneeBuild #
        (if \<not> skipConfirmation \<and> needs_confirmation result then
           ModalConfirm # SetExecuting False # SetExecuting False #
           (case choices of
              [] \<Rightarrow> []
            | Cancel # choices' \<Rightarrow> [UserCancel, SetExecuting False]
            | Ok # choices' \<Rightarrow>
                UserOk # SetExecuting True # ApiCall DeleteCogneeGraph #
                (case deletes of
                   [] \<Rightarrow> []
                 | Inl err # deletes' \<Rightarrow>
                     [Notice (MessageError (''Delete failed: '' @ detailOrMessage err)),
                      SetExecuting False]
                 | Inr u # deletes' \<Rightarrow>
                     Notice (MessageSuccess ''Deleted the old Cognee graph, rebuilding'') #
                     handleExecute_Cognee True (Some d) configNotices configValid builds
                       choices' deletes' post))
         else if success_is_false result \<and> \<not> needs_confirmation result then
           [Notice (MessageError (orElse (build_message result) ''Execution failed'')),
            SetExecuting False, SetExecuting False]
         else afterCogneeBuild post))"

text \<open>
  The button of the tab is bound as \<open>@click="handleExecute"\<close>: the handler is called with
  the click event, an object, as \<open>skipConfirmation\<close>.
\<close>

definition clickExecute_Cognee ::
  "nat option \<Rightarrow> notice list \<Rightarrow> bool \<Rightarrow> build_response response list \<Rightarrow> choice list
     \<Rightarrow> unit response list \<Rightarrow> cognee_post \<Rightarrow> ui_effect list" where
  "clickExecute_Cognee = handleExecute_Cognee True"

definition handleDeleteGraph_Cognee ::
  "nat option \<Rightarrow> choice option \<Rightarrow> unit response \<Rightarrow> ui_effect list" where
  "handleDeleteGraph_Cognee selectedDocumentId choice deleteRes =
     (if selectedDocumentId = None then
        [Notice (MessageWarning ''Please select a document first'')]
      else
        ModalConfirm #
        (case choice of
           None \<Rightarrow> []
         | Some Cancel \<Rightarrow> [UserCancel]
         | Some Ok \<Rightarrow>
             UserOk # ApiCall DeleteCogneeGraph #
             (case deleteRes of
                Inr u \<Rightarrow> [Notice (MessageSuccess ''Cognee graph and Milvus vectors deleted'')]
              | Inl err \<Rightarrow> [Notice (MessageError (''Delete failed: '' @ detailOrMessage err))])))"

subsection \<open>The knowledge-base view\<close>

text \<open>
  \<open>loadDocuments\<close> issues \<open>getKnowledgeBaseDocuments\<close> once and then once per page; if a
  request rejects it logs the error and shows it.
\<close>

definition loadDocuments :: "nat \<Rightarrow> api_error option \<Rightarrow> ui_effect list" where
  "loadDocuments requests failure =
     replicate requests (ApiCall GetKnowledgeBaseDocuments) @
     (case failure of
        None \<Rightarrow> []
      | Some err \<Rightarrow>
          [Notice ConsoleErrorLog,
           Notice (MessageError (''Failed to load the documents: '' @ messageOrFallback err))])"

text \<open>\<open>handleDeleteDocument\<close>; \<open>hasSelectedKB\<close> is \<open>selectedKB.value\<close> being set.\<close>

definition handleDeleteDocument ::
  "bool \<Rightarrow> choice option \<Rightarrow> unit response \<Rightarrow> nat \<Rightarrow> api_error option \<Rightarrow> ui_effect list" where
  "handleDeleteDocument hasSelectedKB choice deleteRes requests failure =
     ModalConfirm #
     (case choice of
        None \<Rightarrow> []
      | Some Cancel \<Rightarrow> [UserCancel]
      | Some Ok \<Rightarrow>
          UserOk #
          (if \<not> hasSelectedKB then []
           else
             ApiCall DeleteKnowledgeBaseDocument #
             (case deleteRes of
                Inr u \<Rightarrow>
                  Notice (MessageSuccess ''Document removed from the knowledge base'') #
                  loadDocuments requests failure
              | Inl err \<Rightarrow>
                  [Notice ConsoleErrorLog,
                   Notice (MessageError (''Failed to remove the document: '' @ messageOrFallback err))])))"

subsection \<open>Smart retrieval\<close>

text \<open>
  The request bodies of \<open>smartRetrieval\<close>, as the list of the keys and values of the
  object literal: in the smart-retrieval tab, in the LLM generation tab and in the
  knowledge-base chat. A key whose value is \<open>null\<close> is part of the JSON body.
\<close>

definition params_SmartRetrievalTab ::
  "string \<Rightarrow> int \<Rightarrow> int \<Rightarrow> bool \<Rightarrow> string \<Rightarrow> string list \<Rightarrow> (string \<times> json) list" where
  "params_SmartRetrievalTab queryText topK minScore enableRefine searchMode selectedGroupIds =
     [(''query'', JStr queryText), (''top_k'', JNum topK), (''min_score'', JNum minScore),
      (''enable_refine'', JBool enableRefine)]
     @ (if searchMode = ''selected'' then [(''group_ids'', JArr (map JStr selectedGroupIds))]
        else [])"

definition retrievalParams_LLMTab ::
  "string \<Rightarrow> int \<Rightarrow> int \<Rightarrow> bool \<Rightarrow> string \<Rightarrow> string list \<Rightarrow> (string \<times> json) list" where
  "retrievalParams_LLMTab userQuery topK minScore enableRefine retrievalScope
       selectedDocumentGroupIds =
     [(''query'', JStr userQuery), (''top_k'', JNum topK), (''min_score'', JNum minScore),
      (''group_ids'',
         if retrievalScope = ''specified'' then JArr (map JStr selectedDocumentGroupIds)
         else JNull),
      (''enable_refine'', JBool enableRefine)]"

text \<open>
  In the chat the settings fall back with \<open>||\<close>: \<open>topK || 20\<close>, \<open>minScore || 60\<close>,
  \<open>enableRefine !== false\<close> (\<open>None\<close> is a missing setting).
\<close>

definition retrievalParams_Chat ::
  "string \<Rightarrow> int option \<Rightarrow> int option \<Rightarrow> bool option \<Rightarrow> string list \<Rightarrow> (string \<times> json) list" where
  "retrievalParams_Chat userMessage topK minScore enableRefine kbDocumentGroupIds =
     [(''query'', JStr userMessage),
      (''top_k'', JNum (case topK of None \<Rightarrow> 20 | Some k \<Rightarrow> if k = 0 then 20 else k)),
      (''min_score'', JNum (case minScore of None \<Rightarrow> 60 | Some s \<Rightarrow> if s = 0 then 60 else s)),
      (''group_ids'', JArr (map JStr kbDocumentGroupIds)),
      (''enable_refine'', JBool (enableRefine \<noteq> Some False))]"

text \<open>\<open>!s.trim()\<close>: the string is empty or white space only.\<close>

definition isBlank :: "string \<Rightarrow> bool" where
  "isBlank s = list_all (\<lambda>c. c \<in> set [CHR '' '', CHR 0x09, CHR 0x0A, CHR 0x0B, CHR 0x0C, CHR 0x0D]) s"

text \<open>
  \<open>handleExecute\<close> of the smart-retrieval tab. The progress display driven by the two
  interval timers is left out.
\<close>

definition handleExecute_SmartRetrievalTab ::
  "string \<Rightarrow> int \<Rightarrow> int \<Rightarrow> bool \<Rightarrow> string \<Rightarrow> string list \<Rightarrow> unit response \<Rightarrow> ui_effect list" where
  "handleExecute_SmartRetrievalTab queryText topK minScore enableRefine searchMode selectedGroupIds
       result =
     (if isBlank queryText then [Notice (MessageWarning ''Please enter the query text'')]
      else if searchMode = ''selected'' \<and> selectedGroupIds = [] then
        [Notice (MessageWarning ''Please select the documents to search'')]
      else
        SetExecuting True #
        ApiCall (SmartRetrieval
          (params_SmartRetrievalTab queryText topK minScore enableRefine searchMode selectedGroupIds)) #
        (case result of
           Inr r \<Rightarrow> [Notice (MessageSuccess ''Smart retrieval finished'')]
         | Inl error \<Rightarrow>
             [Notice ConsoleErrorLog,
              Notice (MessageError (''Execution failed: '' @ detailOrMessageOrFallback error))])
        @ [SetExecuting False])"

text \<open>
  The specification's sentence about error handling, for one call: the steps show the
  error with its detail or the fallback and log it to the console.
\<close>

fun showsError :: "string \<Rightarrow> ui_effect \<Rightarrow> bool" where
  "showsError d (Notice (MessageError text)) = suffix d text"
| "showsError d eff = False"

definition surfacesError :: "api_error \<Rightarrow> ui_effect list \<Rightarrow> bool" where
  "surfacesError err effs =
     (list_ex (showsError (detailOrMessageOrFallback err)) effs
      \<and> list_ex (\<lambda>eff. eff = Notice ConsoleErrorLog) effs)"

text \<open>
  Deletes behind a confirmation: reading the steps from the left, a delete call is
  accepted only when the last dialog event before it is the user's OK, itself given in a
  dialog that was shown; each OK covers one delete call.
\<close>

datatype dialog_state = Idle | Shown | Confirmed

fun guarded :: "dialog_state \<Rightarrow> ui_effect list \<Rightarrow> bool" where
  "guarded s [] = True"
| "guarded s (ModalConfirm # effs) = guarded Shown effs"
| "guarded s (UserOk # effs) = (s = Shown \<and> guarded Confirmed effs)"
| "guarded s (UserCancel # effs) = guarded Idle effs"
| "guarded s (ApiCall ep # effs) =
     (if isDelete ep then s = Confirmed \<and> guarded Idle effs else guarded s effs)"
| "guarded s (Notice n # effs) = guarded s effs"
| "guarded s (SetExecuting b # effs) = guarded s effs"

subsection \<open>Example answers of the backend\<close>

text \<open>
  A build answer asking for confirmation, the answers after a build that went through, and
  a rejection carrying a detail.
\<close>

definition demoBuild :: build_response where
  "demoBuild = \<lparr> needs_confirmation = True, success_is_false = True,
                  build_message = None, build_has_group_id = False \<rparr>"

definition demoCogneePost :: cognee_post where
  "demoCogneePost = \<lparr> cognee_has_group_id = False, cogneeGraphRes = Inr () \<rparr>"

definition demoGraphitiPost :: graphiti_post where
  "demoGraphitiPost =
     \<lparr> resultRes = Inr \<lparr> summary_success = True, summary_has_group_id = False,
                           summary_message = None \<rparr>,
       graphRes = Inr () \<rparr>"

definition demoError :: api_error where
  "demoError = \<lparr> detail = Some ''upload 7 not found'', message = ''Request failed with status code 404'' \<rparr>"

section \<open>Properties of the streaming client\<close>


lemma splitNN_nonempty: "splitNN s \<noteq> []"
  by (induction s rule: splitNN.induct) (auto split: list.splits)

lemma splitNN_Cons:
  "\<not> (c = nl \<and> d = nl) \<Longrightarrow>
   splitNN (c # d # cs) = (c # hd (splitNN (d # cs))) # tl (splitNN (d # cs))"
  using splitNN_nonempty[of "d # cs"] by (cases "splitNN (d # cs)") auto

lemma splitNN_single: "butlast (splitNN s) = [] \<Longrightarrow> splitNN s = [s]"
proof (induction s rule: splitNN.induct)
  case (3 c d cs)
  show ?case
  proof (cases "c = nl \<and> d = nl")
    case True
    with 3(3) splitNN_nonempty[of cs] show ?thesis by simp
  next
    case False
    obtain l ls where S: "splitNN (d # cs) = l # ls"
      using splitNN_nonempty[of "d # cs"] by (cases "splitNN (d # cs)") auto
    from 3(3) False S have "ls = []" by (simp split: if_splits)
    with S 3(2) False have "l = d # cs" by simp
    with S \<open>ls = []\<close> False show ?thesis by simp
  qed
qed simp_all

lemma splitNN_append:
  "splitNN (a @ b) = butlast (splitNN a) @ splitNN (last (splitNN a) @ b)"
proof (induction a rule: splitNN.induct)
  case 1
  then show ?case by simp
next
  case (2 c)
  then show ?case by simp
next
  case (3 c d cs)
  show ?case
  proof (cases "c = nl \<and> d = nl")
    case True
    with 3(1) splitNN_nonempty[of cs] show ?thesis by simp
  next
    case False
    let ?S = "splitNN (d # cs)"
    have ih: "splitNN (d # cs @ b) = butlast ?S @ splitNN (last ?S @ b)"
      using 3(2) False by simp
    obtain l ls where S: "?S = l # ls"
      using splitNN_nonempty[of "d # cs"] by (cases ?S) auto
    have L: "splitNN ((c # d # cs) @ b)
               = (c # hd (splitNN (d # cs @ b))) # tl (splitNN (d # cs @ b))"
      using splitNN_Cons[OF False, of "cs @ b"] by simp
    have R: "splitNN (c # d # cs) = (c # l) # ls"
      using splitNN_Cons[OF False, of cs] S by simp
    show ?thesis
    proof (cases ls)
      case Nil
      with S have "?S = [d # cs]" using splitNN_single[of "d # cs"] by simp
      with S Nil have "l = d # cs" by simp
      with R Nil have R': "splitNN (c # d # cs) = [c # d # cs]" by simp
      show ?thesis unfolding R' by (simp del: splitNN.simps)
    next
      case (Cons m ms)
      have X: "splitNN (d # cs @ b) = l # (butlast ls @ splitNN (last ls @ b))"
        using ih S Cons by simp
      show ?thesis
        unfolding L R X using Cons by simp
    qed
  qed
qed

lemma splitNN_last_idem: "splitNN (last (splitNN s)) = [last (splitNN s)]"
proof -
  have "splitNN (s @ []) = butlast (splitNN s) @ splitNN (last (splitNN s) @ [])"
    by (rule splitNN_append)
  moreover have "splitNN s = butlast (splitNN s) @ [last (splitNN s)]"
    using splitNN_nonempty[of s] by simp
  ultimately show ?thesis by (metis append_Nil2 same_append_eq)
qed


lemma forLines_append:
  "forLines parse (xs @ ys) =
     (case forLines parse xs of
        (effs, True) \<Rightarrow> (effs, True)
      | (effs, False) \<Rightarrow> (case forLines parse ys of (effs', stop) \<Rightarrow> (effs @ effs', stop)))"
  by (induction xs) (auto split: prod.splits bool.splits)

lemma callbacks_append: "callbacks (xs @ ys) = callbacks xs @ callbacks ys"
  by (simp add: callbacks_def)

lemma readStream_Nil: "callbacks (readStream parse buffer [] fin) = atEnd fin"
  by (cases fin) (simp_all add: callbacks_def)

lemma readStream_whole:
  "butlast (splitNN buffer) = [] \<Longrightarrow>
   callbacks (readStream parse buffer reads fin) = wholeText parse (buffer @ concat reads) fin"
proof (induction reads arbitrary: buffer)
  case Nil
  then show ?case using readStream_Nil[of parse buffer fin] by (simp add: wholeText_def callbacks_def)
next
  case (Cons v rest)
  let ?lines = "splitNN (buffer @ v)"
  let ?b2 = "last ?lines"
  have b2: "butlast (splitNN ?b2) = []" by (simp add: splitNN_last_idem)
  have ih: "callbacks (readStream parse ?b2 rest fin) = wholeText parse (?b2 @ concat rest) fin"
    using Cons.IH[OF b2] .
  have sp: "splitNN (buffer @ concat (v # rest)) = butlast ?lines @ splitNN (?b2 @ concat rest)"
    using splitNN_append[of "buffer @ v" "concat rest"] by simp
  have bl: "butlast (splitNN (buffer @ concat (v # rest)))
              = butlast ?lines @ butlast (splitNN (?b2 @ concat rest))"
    unfolding sp using splitNN_nonempty by (simp add: butlast_append)
  show ?case
    unfolding wholeText_def bl forLines_append
    using ih
    by (auto simp: callbacks_def wholeText_def Let_def split: prod.splits bool.splits)
qed

lemma processLine_shape:
  "processLine parse line = (effs, stop) \<Longrightarrow>
     (if stop then \<exists>t. effs = [t] \<and> isTerminal t else list_all (\<lambda>e. \<not> isTerminal e) effs)"
  by (auto simp: processLine_def split: if_splits option.splits json.splits)

lemma forLines_shape:
  "forLines parse lines = (effs, stop) \<Longrightarrow>
     (if stop then \<exists>pre t. effs = pre @ [t] \<and> isTerminal t \<and> list_all (\<lambda>e. \<not> isTerminal e) pre
      else list_all (\<lambda>e. \<not> isTerminal e) effs)"
proof (induction lines arbitrary: effs stop)
  case Nil
  then show ?case by auto
next
  case (Cons l ls)
  obtain e1 s1 where p: "processLine parse l = (e1, s1)" by (cases "processLine parse l")
  note sh = processLine_shape[OF p]
  show ?case
  proof (cases s1)
    case True
    with p Cons.prems sh show ?thesis by (auto intro: exI[of _ "[]"])
  next
    case False
    obtain e2 s2 where f: "forLines parse ls = (e2, s2)" by (cases "forLines parse ls")
    note ih = Cons.IH[OF f]
    from p f False Cons.prems have eq: "effs = e1 @ e2" "stop = s2" by auto
    show ?thesis
    proof (cases s2)
      case True
      with ih obtain pre t where "e2 = pre @ [t]" "isTerminal t" "list_all (\<lambda>e. \<not> isTerminal e) pre"
        by auto
      with eq sh False True show ?thesis by (auto intro!: exI[of _ "e1 @ pre"])
    next
      case False
      with ih eq sh \<open>\<not> s1\<close> show ?thesis by auto
    qed
  qed
qed

lemma readStream_terminal_last:
  "list_all (\<lambda>e. \<not> isTerminal e) (butlast (readStream parse buffer reads fin))"
proof (induction reads arbitrary: buffer)
  case Nil
  then show ?case by (cases fin) simp_all
next
  case (Cons v rest)
  let ?lines = "splitNN (buffer @ v)"
  obtain effs stop where f: "forLines parse (butlast ?lines) = (effs, stop)"
    by (cases "forLines parse (butlast ?lines)")
  note sh = forLines_shape[OF f]
  have ne: "readStream parse (last ?lines) rest fin \<noteq> []"
    by (cases rest; cases fin) simp_all
  show ?case
  proof (cases stop)
    case True
    with sh obtain pre t where "effs = pre @ [t]" "list_all (\<lambda>e. \<not> isTerminal e) pre" by auto
    with f True show ?thesis by (simp add: Let_def)
  next
    case False
    with sh have "list_all (\<lambda>e. \<not> isTerminal e) effs" by simp
    with f False Cons.IH[of "last ?lines"] ne show ?thesis
      by (simp add: Let_def butlast_append)
  qed
qed

section \<open>Properties of the consumers\<close>

lemma deliveredText_simps [simp]:
  "deliveredText [] = []"
  "deliveredText (e # es) = textOf e @ deliveredText es"
  "deliveredText (xs @ ys) = deliveredText xs @ deliveredText ys"
  by (simp_all add: deliveredText_def)






lemma streamOf_app: "streamOf (xs @ ys) = streamOf xs @ streamOf ys"
  by (induction xs rule: streamOf.induct) simp_all





lemma truthy_field_content:
  "truthy_field ''content'' (JObj kvs) = Some c \<Longrightarrow>
   textOf (OnChunk (ContentChunk c)) = (case map_of kvs ''content'' of Some (JStr s) \<Rightarrow> s | _ \<Rightarrow> [])"
  by (cases c) (auto simp: truthy_field_def split: option.splits if_splits)

lemma truthy_field_no_content:
  "truthy_field ''content'' (JObj kvs) = None \<Longrightarrow>
   (case map_of kvs ''content'' of Some (JStr s) \<Rightarrow> s | _ \<Rightarrow> []) = []"
  by (auto simp: truthy_field_def split: option.splits if_splits json.splits)

lemma truthy_field_nonobject:
  "(\<And>kvs. d \<noteq> JObj kvs) \<Longrightarrow> truthy_field k d = None"
  by (cases d) (auto simp: truthy_field_def)

lemma processLine_spec:
  "processLine parse line = (effs, stop) \<Longrightarrow>
     stop = endsStream parse line \<and>
     deliveredText effs = (if stop then [] else eventContent parse line)"
proof (cases "take 6 line = ''data: ''")
  case False
  assume "processLine parse line = (effs, stop)"
  with False show ?thesis by (simp add: processLine_def endsStream_def eventContent_def)
next
  case pre: True
  assume p: "processLine parse line = (effs, stop)"
  show ?thesis
  proof (cases "parse (drop 6 line)")
    case None
    with p pre show ?thesis by (auto simp: processLine_def endsStream_def eventContent_def)
  next
    case (Some d)
    show ?thesis
    proof (cases "\<exists>kvs. d = JObj kvs")
      case False
      then have nf: "\<And>k. truthy_field k d = None" by (intro truthy_field_nonobject) blast
      from False p pre Some nf show ?thesis
        by (cases d) (auto simp: processLine_def endsStream_def eventContent_def)
    next
      case True
      then obtain kvs where d: "d = JObj kvs" by blast
      show ?thesis
        using p pre Some d truthy_field_content[of kvs] truthy_field_no_content[of kvs]
        by (auto simp: processLine_def endsStream_def eventContent_def split: option.splits)
    qed
  qed
qed


section \<open>The streaming session: helper lemmas\<close>



lemma step7_terminal_last:
  "list_all (\<lambda>e. \<not> isTerminal e) (butlast (step7LLMGenerateStream parse r))"
  by (cases r) (simp_all add: step7LLMGenerateStream_def readStream_terminal_last)

lemma terminal_is_last:
  assumes "list_all (\<lambda>e. \<not> isTerminal e) (butlast T)" and "t \<in> set T" and "isTerminal t"
  shows "\<exists>pre. T = pre @ [t] \<and> list_all (\<lambda>e. \<not> isTerminal e) pre"
proof -
  from assms(2) obtain xs ys where T: "T = xs @ t # ys" by (auto dest: split_list)
  have "ys = []"
  proof (rule ccontr)
    assume "ys \<noteq> []"
    then have "butlast T = xs @ t # butlast ys" using T by (simp add: butlast_append)
    with assms(1,3) show False by simp
  qed
  with T assms(1) show ?thesis by (auto simp: butlast_append)
qed


lemma filter_terminal_le1:
  assumes "list_all (\<lambda>e. \<not> isTerminal e) (butlast T)"
  shows "length (filter isTerminal T) \<le> 1"
proof (cases "T = []")
  case False
  then have T: "T = butlast T @ [last T]" by simp
  have "filter isTerminal (butlast T) = []"
    using assms by (induction "butlast T") (auto simp: list_all_iff filter_empty_conv)
  then have "filter isTerminal T = filter isTerminal [last T]"
    using T by (metis append_Nil filter_append)
  then show ?thesis by simp
qed simp

lemma endsStream_stops:
  "endsStream parse line \<Longrightarrow> \<exists>t. isTerminal t \<and> processLine parse line = ([t], True)"
  by (auto simp: endsStream_def processLine_def split: option.splits json.splits)

lemma tabInv_step: "tabInv st \<Longrightarrow> tabInv (tabStep s st)"
proof (cases s)
  case TimerTick
  assume "tabInv st"
  with TimerTick show ?thesis by (auto simp: tabInv_def typewriterEffect_def Let_def)
next
  case (Stream e)
  assume i: "tabInv st"
  show ?thesis
  proof (cases e)
    case (OnChunk c)
    with i Stream show ?thesis
      by (auto simp: tabInv_def onChunk_def split: chunk.splits json.splits)
  next
    case OnDone
    with i Stream show ?thesis by (auto simp: tabInv_def onDone_def Let_def split: option.splits)
  next
    case (OnError x)
    with i Stream show ?thesis by (auto simp: tabInv_def onError_def)
  qed (use i Stream in simp_all)
qed

lemma tabInv_run: "tabInv st \<Longrightarrow> tabInv (runTab steps st)"
  by (induction steps arbitrary: st) (simp_all add: tabInv_step del: tabStep.simps)

lemma tabInv_start: "tabInv streamingStart"
  by (simp add: tabInv_def streamingStart_def)

lemma prefix_take_take: "n \<le> m \<Longrightarrow> prefix (take n xs) (take m xs)"
  by (metis min.absorb1 take_is_prefix take_take)

lemma tabInv_tick:
  assumes "tabInv st"
  shows "prefix (streamingContent st) (pendingText st)"
    and "prefix (streamingContent st) (streamingContent (typewriterEffect st))"
    and "length (streamingContent (typewriterEffect st)) \<le> length (streamingContent st) + 3"
    and "prefix (streamingContent (typewriterEffect st)) (pendingText (typewriterEffect st))"
  using assms
  by (auto simp: tabInv_def typewriterEffect_def Let_def take_is_prefix min_def
      intro: prefix_take_take)

lemma demo_stream:
  "step7LLMGenerateStream demoParse (ResponseOk demoReads Eof)
     = [ReaderRead, ReaderRead, OnChunk (ContentChunk (JStr ''Hi'')), OnDone]"
  by (simp add: step7LLMGenerateStream_def demoReads_def nl_def processLine_def demoParse_def
        truthy_field_def)

text \<open>From an ending event, or the end of the stream, to the callback that ends the call.\<close>

lemma errorEvent_processLine:
  "errorEvent parse line = Some e \<Longrightarrow> processLine parse line = ([OnError (EventError e)], True)"
  by (auto simp: errorEvent_def processLine_def split: if_splits option.splits json.splits)

lemma errorEvent_endsStream: "errorEvent parse line = Some e \<Longrightarrow> endsStream parse line"
  by (auto simp: errorEvent_def endsStream_def split: if_splits option.splits json.splits)

lemma forLines_no_end:
  "list_all (\<lambda>l. \<not> endsStream parse l) lines \<Longrightarrow> snd (forLines parse lines) = False"
proof (induction lines)
  case (Cons l ls)
  obtain e1 s1 where p: "processLine parse l = (e1, s1)" by (cases "processLine parse l")
  from processLine_spec[OF p] Cons.prems have "s1 = False" by simp
  with p Cons show ?case by (auto split: prod.splits)
qed simp

lemma forLines_first_end:
  assumes "list_all (\<lambda>l. \<not> endsStream parse l) pre" and "endsStream parse line"
  shows "forLines parse (pre @ line # rest)
           = (fst (forLines parse pre) @ fst (processLine parse line), True)"
proof -
  from forLines_no_end[OF assms(1)] obtain e1 where f: "forLines parse pre = (e1, False)"
    by (cases "forLines parse pre") auto
  from endsStream_stops[OF assms(2)] obtain t where p: "processLine parse line = ([t], True)"
    by blast
  show ?thesis unfolding forLines_append by (simp add: f p)
qed

lemma step7_ends_with:
  assumes ev: "butlast (splitNN (concat reads)) = pre @ line # rest"
      and pre: "list_all (\<lambda>l. \<not> endsStream parse l) pre"
      and line: "endsStream parse line"
  shows "\<exists>tr t. step7LLMGenerateStream parse (ResponseOk reads fin) = tr @ [t] \<and>
                fst (processLine parse line) = [t] \<and> isTerminal t \<and>
                list_all (\<lambda>x. \<not> isTerminal x) tr"
proof -
  from endsStream_stops[OF line] obtain t where p: "processLine parse line = ([t], True)"
    and t: "isTerminal t" by blast
  have cb: "isCallback t" using t by (cases t) simp_all
  have w: "wholeText parse (concat reads) fin
             = callbacks (fst (forLines parse pre) @ [t])"
    unfolding wholeText_def ev forLines_first_end[OF pre line] by (simp add: p)
  have "callbacks (step7LLMGenerateStream parse (ResponseOk reads fin))
          = wholeText parse (concat reads) fin"
    using readStream_whole[of "[]" parse reads fin] by (simp add: step7LLMGenerateStream_def)
  then have "t \<in> set (callbacks (step7LLMGenerateStream parse (ResponseOk reads fin)))"
    using w cb by (simp add: callbacks_def)
  then have "t \<in> set (step7LLMGenerateStream parse (ResponseOk reads fin))"
    by (simp add: callbacks_def)
  from terminal_is_last[OF step7_terminal_last this t] p t show ?thesis by auto
qed

lemma step7_read_rejected:
  assumes "list_all (\<lambda>l. \<not> endsStream parse l) (butlast (splitNN (concat reads)))"
  shows "\<exists>tr. step7LLMGenerateStream parse (ResponseOk reads (ReadRejects m))
                 = tr @ [OnError (ReadFailure m)] \<and> list_all (\<lambda>x. \<not> isTerminal x) tr"
proof -
  from forLines_no_end[OF assms] obtain effs
    where f: "forLines parse (butlast (splitNN (concat reads))) = (effs, False)"
    by (cases "forLines parse (butlast (splitNN (concat reads)))") auto
  have "callbacks (step7LLMGenerateStream parse (ResponseOk reads (ReadRejects m)))
          = callbacks effs @ [OnError (ReadFailure m)]"
    using readStream_whole[of "[]" parse reads "ReadRejects m"] f
    by (simp add: step7LLMGenerateStream_def wholeText_def)
  then have "OnError (ReadFailure m)
               \<in> set (callbacks (step7LLMGenerateStream parse (ResponseOk reads (ReadRejects m))))"
    by simp
  then have "OnError (ReadFailure m)
               \<in> set (step7LLMGenerateStream parse (ResponseOk reads (ReadRejects m)))"
    by (simp add: callbacks_def)
  from terminal_is_last[OF step7_terminal_last this] show ?thesis by simp
qed

lemma step7_eof:
  assumes "list_all (\<lambda>l. \<not> endsStream parse l) (butlast (splitNN (concat reads)))"
  shows "\<exists>tr. step7LLMGenerateStream parse (ResponseOk reads Eof) = tr @ [OnDone] \<and>
              list_all (\<lambda>x. \<not> isTerminal x) tr"
proof -
  from forLines_no_end[OF assms] obtain effs
    where f: "forLines parse (butlast (splitNN (concat reads))) = (effs, False)"
    by (cases "forLines parse (butlast (splitNN (concat reads)))") auto
  have "callbacks (step7LLMGenerateStream parse (ResponseOk reads Eof)) = callbacks effs @ [OnDone]"
    using readStream_whole[of "[]" parse reads Eof] f
    by (simp add: step7LLMGenerateStream_def wholeText_def)
  then have "OnDone \<in> set (callbacks (step7LLMGenerateStream parse (ResponseOk reads Eof)))"
    by simp
  then have "OnDone \<in> set (step7LLMGenerateStream parse (ResponseOk reads Eof))"
    by (simp add: callbacks_def)
  from terminal_is_last[OF step7_terminal_last this] show ?thesis by simp
qed

text \<open>Once the events read so far hold an ending event, later reads are not made.\<close>

lemma readStream_stops_reading:
  "butlast (splitNN buffer) = [] \<Longrightarrow>
   snd (forLines parse (butlast (splitNN (buffer @ concat reads)))) \<Longrightarrow>
   readStream parse buffer (reads @ later) fin = readStream parse buffer reads fin'"
proof (induction reads arbitrary: buffer)
  case Nil
  then show ?case by simp
next
  case (Cons v rest)
  let ?lines = "splitNN (buffer @ v)"
  let ?b2 = "last ?lines"
  have b2: "butlast (splitNN ?b2) = []" by (simp add: splitNN_last_idem)
  have sp: "splitNN (buffer @ concat (v # rest)) = butlast ?lines @ splitNN (?b2 @ concat rest)"
    using splitNN_append[of "buffer @ v" "concat rest"] by simp
  have bl: "butlast (splitNN (buffer @ concat (v # rest)))
              = butlast ?lines @ butlast (splitNN (?b2 @ concat rest))"
    unfolding sp using splitNN_nonempty by (simp add: butlast_append)
  obtain effs stop where f: "forLines parse (butlast ?lines) = (effs, stop)"
    by (cases "forLines parse (butlast ?lines)")
  show ?case
  proof (cases stop)
    case True
    with f show ?thesis by (simp add: Let_def)
  next
    case False
    with Cons.prems(2) f have "snd (forLines parse (butlast (splitNN (?b2 @ concat rest))))"
      unfolding bl forLines_append by (simp split: prod.splits)
    from Cons.IH[OF b2 this] f False show ?thesis by (simp add: Let_def)
  qed
qed

section \<open>The claims about the streaming session\<close>



text \<open>
  C7. Two ways of cutting the same text into reads give the same sequence of callback
  invocations, with the same arguments.
\<close>

theorem sse_parsing_fragmentation_invariant:
  "concat reads1 = concat reads2 \<Longrightarrow>
   callbacks (step7LLMGenerateStream parse (ResponseOk reads1 fin))
     = callbacks (step7LLMGenerateStream parse (ResponseOk reads2 fin))"
  using readStream_whole[of "[]" parse reads1 fin] readStream_whole[of "[]" parse reads2 fin]
  by (simp add: step7LLMGenerateStream_def)


theorem sse_parsing_fragmentation_invariant_witness:
  "concat demoReads = concat [concat demoReads] \<and>
   callbacks (step7LLMGenerateStream demoParse (ResponseOk demoReads Eof))
     = callbacks (step7LLMGenerateStream demoParse (ResponseOk [concat demoReads] Eof)) \<and>
   callbacks (step7LLMGenerateStream demoParse (ResponseOk demoReads Eof))
     = [OnChunk (ContentChunk (JStr ''Hi'')), OnDone]"
proof -
  have h: "concat demoReads = concat [concat demoReads]" by simp
  show ?thesis
    using sse_parsing_fragmentation_invariant[OF h, of demoParse Eof] h
    by (simp add: demo_stream callbacks_def)
qed

text \<open>
  With firings of the timer and steps of the stream alone, the displayed text is at every
  point a prefix of \<open>pendingText\<close>, a firing of \<open>typewriterEffect\<close> extends it by at
  most three characters and leaves it a prefix of \<open>pendingText\<close>, and \<open>onDone\<close> sets it
  to the whole of \<open>pendingText\<close>.
\<close>

lemma typewriter_prefix_undisturbed:
  "prefix (streamingContent (runTab steps streamingStart)) (pendingText (runTab steps streamingStart)) \<and>
   prefix (streamingContent (runTab steps streamingStart))
          (streamingContent (typewriterEffect (runTab steps streamingStart))) \<and>
   length (streamingContent (typewriterEffect (runTab steps streamingStart)))
     \<le> length (streamingContent (runTab steps streamingStart)) + 3 \<and>
   prefix (streamingContent (typewriterEffect (runTab steps streamingStart)))
          (pendingText (typewriterEffect (runTab steps streamingStart))) \<and>
   streamingContent (onDone (runTab steps streamingStart))
     = pendingText (onDone (runTab steps streamingStart))"
proof -
  have i: "tabInv (runTab steps streamingStart)" by (rule tabInv_run[OF tabInv_start])
  have d: "streamingContent (onDone (runTab steps streamingStart))
     = pendingText (onDone (runTab steps streamingStart))"
    by (simp add: onDone_def Let_def split: option.splits)
  from tabInv_tick[OF i] d show ?thesis by blast
qed

lemma runEvents_session: "runEvents (map SessionStep steps) st = runTab steps st"
  by (induction steps arbitrary: st) simp_all

text \<open>
  C9. Throughout a streaming session the displayed text is to be a prefix of the
  accumulated text, every firing of \<open>typewriterEffect\<close> extending it by at most three
  characters. The code keeps this as long as nothing but the timer and the stream writes
  \<open>streamingContent\<close>. It does not keep it across \<open>handleClear\<close>, which is meant to
  cancel the stream and does not: after the user has pressed Clear during the session
  below, \<open>streamingContent\<close> is empty, \<open>displayedLength\<close> is still 6, and the next firing
  of the timer shows nine characters at once.
\<close>

theorem tick_after_clear_restores_text:
  "streamingContent (runEvents clearedSession streamingStart) = [] \<and>
   displayedLength (runEvents clearedSession streamingStart) = 6 \<and>
   pendingText (runEvents clearedSession streamingStart) = ''abcdefghi'' \<and>
   executionResult (runEvents clearedSession streamingStart) = None \<and>
   streamingContent (typewriterEffect (runEvents clearedSession streamingStart)) = ''abcdefghi'' \<and>
   \<not> length (streamingContent (typewriterEffect (runEvents clearedSession streamingStart)))
       \<le> length (streamingContent (runEvents clearedSession streamingStart)) + 3"
  by (simp add: clearedSession_def streamingStart_def onChunk_def typewriterEffect_def
        handleClear_def Let_def)

text \<open>
  C10. In every call of \<open>step7LLMGenerateStream\<close> an invocation of \<open>onDone\<close> or
  \<open>onError\<close> is the last step: there is at most one, and no read and no \<open>onChunk\<close>
  follows it. An event with a truthy \<open>error\<close> or \<open>done\<close> field ends the loop over the
  lines of its read, whatever lines remain. When the text of the reads holds such an
  event, the call ends with the callback of the first one, and the reads that come after
  the one completing that event are not made: the steps are the same whatever follows.
\<close>

theorem done_or_error_ends_session:
  "list_all (\<lambda>e. \<not> isTerminal e) (butlast (step7LLMGenerateStream parse r)) \<and>
   length (filter isTerminal (step7LLMGenerateStream parse r)) \<le> 1 \<and>
   (endsStream parse line \<longrightarrow>
      (\<exists>t. isTerminal t \<and> forLines parse (line # lines) = ([t], True))) \<and>
   (butlast (splitNN (concat reads)) = pre @ line # rest \<and>
    list_all (\<lambda>l. \<not> endsStream parse l) pre \<and> endsStream parse line \<longrightarrow>
      (\<exists>tr t. step7LLMGenerateStream parse (ResponseOk reads fin) = tr @ [t] \<and>
              fst (processLine parse line) = [t] \<and> isTerminal t \<and>
              list_all (\<lambda>x. \<not> isTerminal x) tr)) \<and>
   (snd (forLines parse (butlast (splitNN (concat reads)))) \<longrightarrow>
      step7LLMGenerateStream parse (ResponseOk (reads @ later) fin)
        = step7LLMGenerateStream parse (ResponseOk reads fin'))"
proof -
  have a: "list_all (\<lambda>e. \<not> isTerminal e) (butlast (step7LLMGenerateStream parse r))"
    by (rule step7_terminal_last)
  have c: "endsStream parse line \<longrightarrow>
      (\<exists>t. isTerminal t \<and> forLines parse (line # lines) = ([t], True))"
    using endsStream_stops[of parse line] by auto
  have d: "butlast (splitNN (concat reads)) = pre @ line # rest \<and>
    list_all (\<lambda>l. \<not> endsStream parse l) pre \<and> endsStream parse line \<longrightarrow>
      (\<exists>tr t. step7LLMGenerateStream parse (ResponseOk reads fin) = tr @ [t] \<and>
              fst (processLine parse line) = [t] \<and> isTerminal t \<and>
              list_all (\<lambda>x. \<not> isTerminal x) tr)"
    using step7_ends_with[of reads pre line rest parse fin] by blast
  have e: "snd (forLines parse (butlast (splitNN (concat reads)))) \<longrightarrow>
      step7LLMGenerateStream parse (ResponseOk (reads @ later) fin)
        = step7LLMGenerateStream parse (ResponseOk reads fin')"
    using readStream_stops_reading[of "[]" parse reads later fin fin']
    by (simp add: step7LLMGenerateStream_def)
  from a filter_terminal_le1[OF a] c d e show ?thesis by blast
qed

theorem done_or_error_ends_session_witness:
  "endsStream demoParse ''data: {\"error\":\"boom\"}'' \<and>
   butlast (splitNN (concat endedReads))
     = [] @ ''data: {\"error\":\"boom\"}'' # [''data: {\"content\":\"Hi\"}'', ''data: {\"content\":\"!\"}''] \<and>
   step7LLMGenerateStream demoParse (ResponseOk endedReads Eof)
     = [ReaderRead, OnError (EventError (JStr ''boom''))] \<and>
   step7LLMGenerateStream demoParse (ResponseOk (take 1 endedReads) Stalls)
     = [ReaderRead, OnError (EventError (JStr ''boom''))] \<and>
   forLines demoParse [''data: {\"error\":\"boom\"}'', ''data: {\"content\":\"Hi\"}'']
     = ([OnError (EventError (JStr ''boom''))], True)"
proof -
  have h: "endsStream demoParse ''data: {\"error\":\"boom\"}''"
    by (simp add: endsStream_def demoParse_def truthy_field_def)
  have ev: "butlast (splitNN (concat endedReads))
     = [] @ ''data: {\"error\":\"boom\"}'' # [''data: {\"content\":\"Hi\"}'', ''data: {\"content\":\"!\"}'']"
    by (simp add: endedReads_def nl_def)
  have p: "processLine demoParse ''data: {\"error\":\"boom\"}''
             = ([OnError (EventError (JStr ''boom''))], True)"
    by (simp add: processLine_def demoParse_def truthy_field_def)
  note th = done_or_error_ends_session[where parse = demoParse
      and line = "''data: {\"error\":\"boom\"}''" and lines = "[''data: {\"content\":\"Hi\"}'']"
      and reads = endedReads and pre = "[]"
      and rest = "[''data: {\"content\":\"Hi\"}'', ''data: {\"content\":\"!\"}'']" and fin = Eof]
  have pre0: "list_all (\<lambda>l. \<not> endsStream demoParse l) []" by simp
  note ends = th[THEN conjunct2, THEN conjunct2, THEN conjunct2, THEN conjunct1]
  note loop = th[THEN conjunct2, THEN conjunct2, THEN conjunct1]
  from ends h ev pre0 obtain tr t where
      tr: "step7LLMGenerateStream demoParse (ResponseOk endedReads Eof) = tr @ [t]"
      and t: "fst (processLine demoParse ''data: {\"error\":\"boom\"}'') = [t]"
    by blast
  from loop h obtain t' where
      f: "forLines demoParse [''data: {\"error\":\"boom\"}'', ''data: {\"content\":\"Hi\"}''] = ([t'], True)"
    by blast
  have s1: "step7LLMGenerateStream demoParse (ResponseOk endedReads Eof)
     = [ReaderRead, OnError (EventError (JStr ''boom''))]"
    by (simp add: endedReads_def step7LLMGenerateStream_def nl_def processLine_def demoParse_def
          truthy_field_def)
  have s2: "step7LLMGenerateStream demoParse (ResponseOk (take 1 endedReads) Stalls)
     = [ReaderRead, OnError (EventError (JStr ''boom''))]"
    by (simp add: endedReads_def step7LLMGenerateStream_def nl_def processLine_def demoParse_def
          truthy_field_def)
  from f p have "forLines demoParse [''data: {\"error\":\"boom\"}'', ''data: {\"content\":\"Hi\"}'']
     = ([OnError (EventError (JStr ''boom''))], True)"
    by (simp del: processLine_def split: prod.splits)
  with h ev s1 s2 show ?thesis by blast
qed

text \<open>
  C4. Every failure of the streamed generation invokes \<open>onError\<close>, and that invocation
  is the last step of the call, so that no read and no \<open>onChunk\<close> follows: when \<open>fetch\<close>
  rejects, when the response is not OK, when the first event of the text with a truthy
  \<open>error\<close> or \<open>done\<close> field carries an \<open>error\<close>, and when a read rejects before any such
  event has arrived. The two
  consumers react differently. The knowledge-base chat replaces the content of the message
  in progress by a failure text and clears its \<open>streamingContent\<close>. The LLM generation
  tab sets \<open>executionResult\<close> to null, so that the answer card is no longer rendered, and
  reports the failure with \<open>console.error\<close> and \<open>message.error\<close>: the partial answer is
  not turned into a failure text. The example session below shows the tab after a failure.
\<close>

theorem stream_failure_aborts_and_reports:
  "step7LLMGenerateStream parse (ResponseNotOk d) = [OnError (HttpFailure d)] \<and>
   step7LLMGenerateStream parse (FetchRejects d) = [OnError (FetchFailure d)] \<and>
   (butlast (splitNN (concat reads)) = pre @ line # rest \<and>
    list_all (\<lambda>l. \<not> endsStream parse l) pre \<and> errorEvent parse line = Some v \<longrightarrow>
      (\<exists>tr. step7LLMGenerateStream parse (ResponseOk reads fin) = tr @ [OnError (EventError v)] \<and>
            list_all (\<lambda>x. \<not> isTerminal x) tr)) \<and>
   (list_all (\<lambda>l. \<not> endsStream parse l) (butlast (splitNN (concat reads))) \<longrightarrow>
      (\<exists>tr. step7LLMGenerateStream parse (ResponseOk reads (ReadRejects m))
               = tr @ [OnError (ReadFailure m)] \<and>
            list_all (\<lambda>x. \<not> isTerminal x) tr)) \<and>
   (OnError e \<in> set (step7LLMGenerateStream parse r) \<longrightarrow>
      (\<exists>tr. step7LLMGenerateStream parse r = tr @ [OnError e] \<and>
            list_all (\<lambda>x. \<not> isTerminal x) tr)) \<and>
   chat_content (chatOnError e c) = ''Sorry, generation failed: '' @ messageOrUnknown e \<and>
   chat_streamingContent (chatOnError e c) = [] \<and>
   \<not> chat_isStreaming (chatOnError e c) \<and>
   \<not> isStreaming (onError e st) \<and>
   executionResult (onError e st) = None \<and>
   renderedAnswer (onError e st) = None \<and>
   notices (onError e st)
     = notices st @ [ConsoleErrorLog, MessageError (''LLM generation failed: '' @ messageOrUnknown e)]"
proof -
  have a: "butlast (splitNN (concat reads)) = pre @ line # rest \<and>
    list_all (\<lambda>l. \<not> endsStream parse l) pre \<and> errorEvent parse line = Some v \<longrightarrow>
      (\<exists>tr. step7LLMGenerateStream parse (ResponseOk reads fin) = tr @ [OnError (EventError v)] \<and>
            list_all (\<lambda>x. \<not> isTerminal x) tr)"
  proof (intro impI, elim conjE)
    assume ev: "butlast (splitNN (concat reads)) = pre @ line # rest"
      and pre: "list_all (\<lambda>l. \<not> endsStream parse l) pre"
      and er: "errorEvent parse line = Some v"
    from step7_ends_with[OF ev pre errorEvent_endsStream[OF er], of fin]
    obtain tr t where "step7LLMGenerateStream parse (ResponseOk reads fin) = tr @ [t]"
      "fst (processLine parse line) = [t]" "list_all (\<lambda>x. \<not> isTerminal x) tr"
      by blast
    with errorEvent_processLine[OF er]
    show "\<exists>tr. step7LLMGenerateStream parse (ResponseOk reads fin) = tr @ [OnError (EventError v)] \<and>
            list_all (\<lambda>x. \<not> isTerminal x) tr"
      by auto
  qed
  have b: "list_all (\<lambda>l. \<not> endsStream parse l) (butlast (splitNN (concat reads))) \<longrightarrow>
      (\<exists>tr. step7LLMGenerateStream parse (ResponseOk reads (ReadRejects m))
               = tr @ [OnError (ReadFailure m)] \<and>
            list_all (\<lambda>x. \<not> isTerminal x) tr)"
    using step7_read_rejected[of parse reads m] by blast
  have c: "OnError e \<in> set (step7LLMGenerateStream parse r) \<longrightarrow>
      (\<exists>tr. step7LLMGenerateStream parse r = tr @ [OnError e] \<and>
            list_all (\<lambda>x. \<not> isTerminal x) tr)"
    using terminal_is_last[OF step7_terminal_last, of "OnError e" parse r] by simp
  have u: "step7LLMGenerateStream parse (ResponseNotOk d) = [OnError (HttpFailure d)] \<and>
   step7LLMGenerateStream parse (FetchRejects d) = [OnError (FetchFailure d)] \<and>
   chat_content (chatOnError e c) = ''Sorry, generation failed: '' @ messageOrUnknown e \<and>
   chat_streamingContent (chatOnError e c) = [] \<and>
   \<not> chat_isStreaming (chatOnError e c) \<and>
   \<not> isStreaming (onError e st) \<and>
   executionResult (onError e st) = None \<and>
   renderedAnswer (onError e st) = None \<and>
   notices (onError e st)
     = notices st @ [ConsoleErrorLog, MessageError (''LLM generation failed: '' @ messageOrUnknown e)]"
    by (simp add: step7LLMGenerateStream_def chatOnError_def onError_def renderedAnswer_def)
  from a b c u show ?thesis by blast
qed

theorem stream_failure_aborts_and_reports_witness:
  "errorEvent demoParse ''data: {\"error\":\"boom\"}'' = Some (JStr ''boom'') \<and>
   butlast (splitNN (concat failReads))
     = [''data: {\"content\":\"Hi\"}''] @ ''data: {\"error\":\"boom\"}'' # [] \<and>
   step7LLMGenerateStream demoParse (ResponseOk failReads Eof)
     = [ReaderRead, OnChunk (ContentChunk (JStr ''Hi'')), ReaderRead, OnError (EventError (JStr ''boom''))] \<and>
   step7LLMGenerateStream demoParse (ResponseOk (take 1 failReads) (ReadRejects ''network error''))
     = [ReaderRead, OnChunk (ContentChunk (JStr ''Hi'')), ReaderRead,
        OnError (ReadFailure ''network error'')] \<and>
   chat_content (chatOnError (EventError (JStr ''boom'')) chatStart) = ''Sorry, generation failed: boom'' \<and>
   renderedAnswer (onError (EventError (JStr ''boom'')) streamingStart) = None"
proof -
  have er: "errorEvent demoParse ''data: {\"error\":\"boom\"}'' = Some (JStr ''boom'')"
    by (simp add: errorEvent_def demoParse_def truthy_field_def)
  have ev: "butlast (splitNN (concat failReads))
     = [''data: {\"content\":\"Hi\"}''] @ ''data: {\"error\":\"boom\"}'' # []"
    by (simp add: failReads_def nl_def)
  have pre: "list_all (\<lambda>l. \<not> endsStream demoParse l) [''data: {\"content\":\"Hi\"}'']"
    by (simp add: endsStream_def demoParse_def truthy_field_def)
  have s: "step7LLMGenerateStream demoParse (ResponseOk failReads Eof)
     = [ReaderRead, OnChunk (ContentChunk (JStr ''Hi'')), ReaderRead, OnError (EventError (JStr ''boom''))]"
    by (simp add: failReads_def step7LLMGenerateStream_def nl_def processLine_def
        demoParse_def truthy_field_def)
  have s2: "step7LLMGenerateStream demoParse (ResponseOk (take 1 failReads) (ReadRejects ''network error''))
     = [ReaderRead, OnChunk (ContentChunk (JStr ''Hi'')), ReaderRead,
        OnError (ReadFailure ''network error'')]"
    by (simp add: failReads_def step7LLMGenerateStream_def nl_def processLine_def
        demoParse_def truthy_field_def)
  note th = stream_failure_aborts_and_reports[where parse = demoParse and reads = failReads
      and pre = "[''data: {\"content\":\"Hi\"}'']" and line = "''data: {\"error\":\"boom\"}''"
      and rest = "[]" and v = "JStr ''boom''" and fin = Eof
      and e = "EventError (JStr ''boom'')" and c = chatStart and st = streamingStart]
  note byEvent = th[THEN conjunct2, THEN conjunct2, THEN conjunct1]
  note chat = th[THEN conjunct2, THEN conjunct2, THEN conjunct2, THEN conjunct2, THEN conjunct2,
                 THEN conjunct1]
  note tab = th[THEN conjunct2, THEN conjunct2, THEN conjunct2, THEN conjunct2, THEN conjunct2,
                THEN conjunct2, THEN conjunct2, THEN conjunct2, THEN conjunct2, THEN conjunct2,
                THEN conjunct1]
  from byEvent er ev pre obtain tr where
    "step7LLMGenerateStream demoParse (ResponseOk failReads Eof) = tr @ [OnError (EventError (JStr ''boom''))]"
    by blast
  moreover note chat tab
  ultimately show ?thesis using er ev s s2 by (simp add: messageOrUnknown_def)
qed

text \<open>
  The LLM generation tab after a failed session: the card is not rendered and the text
  shown so far was left as it was; no failure text is stored.
\<close>

theorem llm_tab_failure_shows_no_failed_text:
  "streamOf failSteps = step7LLMGenerateStream demoParse (ResponseOk failReads Eof) \<and>
   streamingContent (runTab failSteps streamingStart) = ''Hi'' \<and>
   executionResult (runTab failSteps streamingStart) = None \<and>
   renderedAnswer (runTab failSteps streamingStart) = None"
  by (simp add: failSteps_def failReads_def step7LLMGenerateStream_def nl_def processLine_def
        demoParse_def truthy_field_def streamingStart_def onChunk_def typewriterEffect_def
        onError_def renderedAnswer_def Let_def)

section \<open>The conversion of retrieval results\<close>



lemma length_insertSorted: "length (insertSorted x ys) = Suc (length ys)"
  by (induction ys) auto


lemma length_sortByScoreDesc: "length (sortByScoreDesc xs) = length xs"
  by (induction xs) (simp_all add: sortByScoreDesc_def length_insertSorted)









text \<open>
  When the division merges two scores the comparator returns zero and the stable sort
  keeps the two items in the order of the response.
\<close>

lemma demo_rounding_keeps_response_order:
  "map (\<lambda>x. (doc_id x, score x)) (convertV4ResultsToLLMFormat roundingDiv100 demoCloseScores 2)
     = [(''d1'', Some 70), (''d2'', Some 70)]"
  by (simp add: convertV4ResultsToLLMFormat_def slice0_def sortByScoreDesc_def pushed_def
        demoCloseScores_def fromChunk_def orElse_def numeral_2_eq_2 compareFn_def divide100_def
        roundingDiv100_def)





section \<open>The handlers: helper lemmas\<close>

lemma guarded_notices: "guarded s (map Notice ns @ effs) = guarded s effs"
  by (induction ns) simp_all

lemma guarded_replicate:
  "guarded s (replicate n (ApiCall GetKnowledgeBaseDocuments) @ effs) = guarded s effs"
  by (induction n) simp_all

lemma guarded_fetchGraphData: "guarded s (fetchGraphData r @ effs) = guarded s effs"
  by (simp add: fetchGraphData_def split: sum.splits)

lemma guarded_afterGraphitiBuild: "guarded s (afterGraphitiBuild res post)"
  using guarded_fetchGraphData[of s "graphRes post" "[SetExecuting False]"]
  by (simp add: afterGraphitiBuild_def split: sum.splits)

lemma guarded_afterCogneeBuild: "guarded s (afterCogneeBuild post)"
  by (simp add: afterCogneeBuild_def split: sum.splits)

lemma guarded_executeGraphitiWithMode:
  "guarded s (executeGraphitiWithMode builds choices deletes post)"
proof (induction builds choices deletes post arbitrary: s rule: executeGraphitiWithMode.induct)
  case (3 res builds choices deletes post)
  show ?case
    using 3 guarded_afterGraphitiBuild[of s res post]
    by (auto split: list.splits choice.splits sum.splits)
qed simp_all

lemma guarded_handleExecute_Cognee:
  "guarded s (handleExecute_Cognee skip sel ns valid builds choices deletes post)"
proof (induction skip sel ns valid builds choices deletes post arbitrary: s
        rule: handleExecute_Cognee.induct)
  case (4 skipConfirmation d configNotices configValid result builds choices deletes post)
  show ?case
    using 4 guarded_afterCogneeBuild[of s post]
    by (auto simp: guarded_notices split: list.splits choice.splits sum.splits)
qed (simp_all add: guarded_notices)

lemma apiCalls_append: "apiCalls (xs @ ys) = apiCalls xs @ apiCalls ys"
  by (induction xs rule: apiCalls.induct) simp_all

lemma apiCalls_notices: "apiCalls (map Notice ns) = []"
  by (induction ns) simp_all

lemma cancel_first_Graphiti:
  "filter isDelete (apiCalls (executeGraphitiWithMode builds (Cancel # cs) deletes post)) = []"
proof (cases builds)
  case (Cons b bs)
  then show ?thesis
    by (cases b)
       (auto simp: afterGraphitiBuild_def fetchGraphData_def apiCalls_append split: sum.splits)
qed simp

lemma cancel_first_Cognee:
  "filter isDelete
     (apiCalls (handleExecute_Cognee skip sel ns valid builds (Cancel # cs) deletes post)) = []"
proof (cases sel)
  case (Some d)
  show ?thesis
  proof (cases builds)
    case Nil
    with Some show ?thesis by (simp add: apiCalls_append apiCalls_notices)
  next
    case (Cons b bs)
    with Some show ?thesis
      by (cases b)
         (auto simp: afterCogneeBuild_def apiCalls_append apiCalls_notices split: sum.splits)
  qed
qed simp

lemma executingAfter_notices: "executingAfter b (map Notice ns @ effs) = executingAfter b effs"
  by (induction ns) simp_all

lemma hd_apiCalls_Graphiti:
  "hd (apiCalls (executeGraphitiWithMode builds choices deletes post)) = Step1GraphitiEpisode"
  by (induction builds choices deletes post rule: executeGraphitiWithMode.induct) simp_all

lemma hd_apiCalls_Cognee:
  "valid \<Longrightarrow>
   hd (apiCalls (handleExecute_Cognee skip (Some d) ns valid builds choices deletes post))
     = Step2CogneeBuild"
  by (induction skip "Some d" ns valid builds choices deletes post
        rule: handleExecute_Cognee.induct)
     (simp_all add: apiCalls_append apiCalls_notices)

lemma showsError_suffix: "showsError d (Notice (MessageError (pre @ d)))"
  by (simp add: suffix_def)

text \<open>The predicate \<open>guarded\<close> rejects a delete call that follows a cancelled dialog.\<close>

lemma guarded_rejects_unconfirmed_delete:
  "\<not> guarded Idle [ModalConfirm, UserCancel, ApiCall DeleteGraphitiGraph]"
  by simp

text \<open>
  Called from its button, \<open>handleExecute\<close> of the Cognee tab never opens the confirmation
  dialog and never deletes.
\<close>

lemma clickExecute_Cognee_no_dialog:
  "ModalConfirm \<notin> set (clickExecute_Cognee sel ns valid builds choices deletes post) \<and>
   filter isDelete (apiCalls (clickExecute_Cognee sel ns valid builds choices deletes post)) = []"
proof (cases sel)
  case None
  then show ?thesis by (simp add: clickExecute_Cognee_def)
next
  case (Some d)
  show ?thesis
  proof (cases builds)
    case Nil
    with Some show ?thesis
      by (auto simp: clickExecute_Cognee_def apiCalls_append apiCalls_notices)
  next
    case (Cons b bs)
    with Some show ?thesis
      by (cases b)
         (auto simp: clickExecute_Cognee_def afterCogneeBuild_def apiCalls_append apiCalls_notices
            split: sum.splits)
  qed
qed

section \<open>The claims about the handlers\<close>

text \<open>
  C2. In every run of the five handlers that can reach \<open>deleteGraphitiGraph\<close>,
  \<open>deleteCogneeGraph\<close> or \<open>deleteKnowledgeBaseDocument\<close>, whatever the backend answers
  and the user chooses, a delete call is made only after \<open>Modal.confirm\<close> was shown and
  the user chose OK in it; when the user's choice is Cancel no delete call is made.
\<close>

theorem deletes_pass_through_confirmation:
  "guarded Idle (handleExecuteGraphiti sel1 jsonOk builds1 choices1 deletes1 post1) \<and>
   guarded Idle (handleDeleteGraph_Graphiti sel2 hasGroupId res2 choice2 deleteRes2) \<and>
   guarded Idle (handleExecute_Cognee skip sel3 ns valid builds3 choices3 deletes3 post3) \<and>
   guarded Idle (handleDeleteGraph_Cognee sel4 choice4 deleteRes4) \<and>
   guarded Idle (handleDeleteDocument hasKB choice5 deleteRes5 requests failure) \<and>
   filter isDelete (apiCalls (handleExecuteGraphiti sel1 jsonOk builds1 (Cancel # choices1) deletes1 post1)) = [] \<and>
   filter isDelete (apiCalls (handleDeleteGraph_Graphiti sel2 hasGroupId res2 (Some Cancel) deleteRes2)) = [] \<and>
   filter isDelete (apiCalls (handleExecute_Cognee skip sel3 ns valid builds3 (Cancel # choices3) deletes3 post3)) = [] \<and>
   filter isDelete (apiCalls (handleDeleteGraph_Cognee sel4 (Some Cancel) deleteRes4)) = [] \<and>
   filter isDelete (apiCalls (handleDeleteDocument hasKB (Some Cancel) deleteRes5 requests failure)) = []"
proof -
  have g1: "guarded Idle (handleExecuteGraphiti sel1 jsonOk builds1 choices1 deletes1 post1)"
    by (simp add: handleExecuteGraphiti_def guarded_executeGraphitiWithMode)
  have g2: "guarded Idle (handleDeleteGraph_Graphiti sel2 hasGroupId res2 choice2 deleteRes2)"
    by (simp add: handleDeleteGraph_Graphiti_def confirmDeleteGraphiti_def
          split: sum.splits option.splits choice.splits)
  have g3: "guarded Idle (handleExecute_Cognee skip sel3 ns valid builds3 choices3 deletes3 post3)"
    by (rule guarded_handleExecute_Cognee)
  have g4: "guarded Idle (handleDeleteGraph_Cognee sel4 choice4 deleteRes4)"
    by (simp add: handleDeleteGraph_Cognee_def split: sum.splits option.splits choice.splits)
  have g5: "guarded Idle (handleDeleteDocument hasKB choice5 deleteRes5 requests failure)"
    using guarded_replicate[of Idle requests]
    by (simp add: handleDeleteDocument_def loadDocuments_def
          split: sum.splits option.splits choice.splits)
  have c1: "filter isDelete (apiCalls (handleExecuteGraphiti sel1 jsonOk builds1 (Cancel # choices1) deletes1 post1)) = []"
    by (simp add: handleExecuteGraphiti_def cancel_first_Graphiti)
  have c2: "filter isDelete (apiCalls (handleDeleteGraph_Graphiti sel2 hasGroupId res2 (Some Cancel) deleteRes2)) = []"
    by (simp add: handleDeleteGraph_Graphiti_def confirmDeleteGraphiti_def split: sum.splits)
  have c3: "filter isDelete (apiCalls (handleExecute_Cognee skip sel3 ns valid builds3 (Cancel # choices3) deletes3 post3)) = []"
    by (rule cancel_first_Cognee)
  have c4: "filter isDelete (apiCalls (handleDeleteGraph_Cognee sel4 (Some Cancel) deleteRes4)) = []"
    by (simp add: handleDeleteGraph_Cognee_def)
  have c5: "filter isDelete (apiCalls (handleDeleteDocument hasKB (Some Cancel) deleteRes5 requests failure)) = []"
    by (simp add: handleDeleteDocument_def)
  from g1 g2 g3 g4 g5 c1 c2 c3 c4 c5 show ?thesis by blast
qed


theorem deletes_pass_through_confirmation_witness:
  "handleDeleteGraph_Cognee (Some 7) (Some Ok) (Inr ())
     = [ModalConfirm, UserOk, ApiCall DeleteCogneeGraph,
        Notice (MessageSuccess ''Cognee graph and Milvus vectors deleted'')] \<and>
   guarded Idle (handleDeleteGraph_Cognee (Some 7) (Some Ok) (Inr ())) \<and>
   handleDeleteGraph_Cognee (Some 7) (Some Cancel) (Inr ()) = [ModalConfirm, UserCancel] \<and>
   filter isDelete (apiCalls (handleDeleteGraph_Cognee (Some 7) (Some Cancel) (Inr ()))) = []"
  using deletes_pass_through_confirmation
          [where ?sel4.0 = "Some 7" and ?choice4.0 = "Some Ok" and ?deleteRes4.0 = "Inr ()"]
  by (simp add: handleDeleteGraph_Cognee_def)

text \<open>
  The Graphiti tab on an answer with \<open>needs_confirmation === true\<close>: it makes no further
  call and shows the dialog; on Cancel there is no delete and no second build call and
  \<open>executing\<close> is false; on OK the delete call is made and, once it has succeeded, the
  build is called a second time.
\<close>

lemma graphiti_rebuild_needs_confirmation:
  assumes "needs_confirmation res"
  shows
   "apiCalls (executeGraphitiWithMode (Inr res # builds) [] deletes post) = [Step1GraphitiEpisode] \<and>
    ModalConfirm \<in> set (executeGraphitiWithMode (Inr res # builds) [] deletes post) \<and>
    apiCalls (executeGraphitiWithMode (Inr res # builds) (Cancel # choices) deletes post)
      = [Step1GraphitiEpisode] \<and>
    \<not> executingAfter b (executeGraphitiWithMode (Inr res # builds) (Cancel # choices) deletes post) \<and>
    apiCalls (executeGraphitiWithMode (Inr res # builds) (Ok # choices) (Inl err # deletes') post)
      = [Step1GraphitiEpisode, DeleteGraphitiGraph] \<and>
    apiCalls (executeGraphitiWithMode (Inr res # builds) (Ok # choices) (Inr () # deletes') post)
      = Step1GraphitiEpisode # DeleteGraphitiGraph #
        apiCalls (executeGraphitiWithMode builds choices deletes' post) \<and>
    hd (apiCalls (executeGraphitiWithMode builds choices deletes' post)) = Step1GraphitiEpisode"
  using assms hd_apiCalls_Graphiti[of builds choices deletes' post]
  by (simp add: apiCalls_append apiCalls_notices executingAfter_notices)

text \<open>
  C3. A build answer with \<open>needs_confirmation === true\<close> is to stop the front-end and put
  the rebuild behind the user's confirmation. The Graphiti tab does so. In the Cognee tab
  the check is written (\<open>!skipConfirmation && result.needs_confirmation === true\<close>), but
  the button is bound as \<open>@click="handleExecute"\<close>, so that the click event is the
  argument \<open>skipConfirmation\<close> and the check is skipped: on the same answer a click shows
  no dialog and reports the build as finished. The two runs below are the two tabs on the
  same answer.
\<close>

theorem cognee_click_skips_confirmation:
  "needs_confirmation demoBuild \<and>
   clickExecute_Cognee (Some 1) [] True [Inr demoBuild] [Ok] [Inr ()] demoCogneePost
     = [SetExecuting True, ApiCall Step2CogneeBuild,
        Notice (MessageSuccess ''Cognee processing finished''),
        ApiCall GetChunksCogneeMapping, SetExecuting False] \<and>
   executeGraphitiWithMode [Inr demoBuild] [Ok] [] demoGraphitiPost
     = [ApiCall Step1GraphitiEpisode, ModalConfirm, SetExecuting False, SetExecuting False,
        UserOk, SetExecuting True, ApiCall DeleteGraphitiGraph]"
  by (simp add: clickExecute_Cognee_def demoBuild_def demoCogneePost_def afterCogneeBuild_def)

text \<open>
  C5. A rejected \<open>smartRetrieval\<close> call in \<open>handleExecute\<close> of the smart-retrieval tab
  is shown with \<open>message.error\<close>, with the server's detail when there is one, otherwise
  the error's message, otherwise a generic text, and is written to the console. This does
  not hold of every call: \<open>handleLoadEpisodeBody\<close> shows a fixed text and logs nothing,
  and the \<open>catch\<close> of \<open>getGraphitiResult\<close> in \<open>handleDocumentChange\<close> shows and logs
  nothing, as the example run shows.
\<close>

theorem rejected_calls_are_reported:
  assumes "\<not> isBlank queryText" and "\<not> (searchMode = ''selected'' \<and> selectedGroupIds = [])"
  shows
   "surfacesError err (handleExecute_SmartRetrievalTab queryText topK minScore enableRefine
                        searchMode selectedGroupIds (Inl err)) \<and>
    list_ex (\<lambda>eff. eff = Notice (MessageError (''Execution failed: '' @ detailOrMessageOrFallback err)))
      (handleExecute_SmartRetrievalTab queryText topK minScore enableRefine
         searchMode selectedGroupIds (Inl err)) \<and>
    detailOrMessageOrFallback err
      = (case detail err of
           None \<Rightarrow> if message err = [] then ''unknown error'' else message err
         | Some dt \<Rightarrow>
             if dt = [] then (if message err = [] then ''unknown error'' else message err)
             else dt) \<and>
    handleLoadEpisodeBody (Some doc) (Inl err)
      = [ApiCall PreviewEpisodeBody, Notice (MessageError ''Failed to load Episode Body'')] \<and>
    handleDocumentChange (Some doc) bodyRes (Inl err)
      = handleLoadEpisodeBody (Some doc) bodyRes @ [ApiCall GetGraphitiResult]"
proof -
  have a: "surfacesError err (handleExecute_SmartRetrievalTab queryText topK minScore enableRefine
                        searchMode selectedGroupIds (Inl err))"
    using assms showsError_suffix[of "detailOrMessageOrFallback err" "''Execution failed: ''"]
    by (auto simp: handleExecute_SmartRetrievalTab_def surfacesError_def)
  have b: "list_ex (\<lambda>eff. eff = Notice (MessageError (''Execution failed: '' @ detailOrMessageOrFallback err)))
      (handleExecute_SmartRetrievalTab queryText topK minScore enableRefine
         searchMode selectedGroupIds (Inl err))"
    using assms by (auto simp: handleExecute_SmartRetrievalTab_def)
  have c: "detailOrMessageOrFallback err
      = (case detail err of
           None \<Rightarrow> if message err = [] then ''unknown error'' else message err
         | Some dt \<Rightarrow>
             if dt = [] then (if message err = [] then ''unknown error'' else message err)
             else dt)"
    by (simp add: detailOrMessageOrFallback_def orElse_def messageOrFallback_def
          split: option.splits)
  have d: "handleLoadEpisodeBody (Some doc) (Inl err)
      = [ApiCall PreviewEpisodeBody, Notice (MessageError ''Failed to load Episode Body'')]"
    by (simp add: handleLoadEpisodeBody_def)
  have e: "handleDocumentChange (Some doc) bodyRes (Inl err)
      = handleLoadEpisodeBody (Some doc) bodyRes @ [ApiCall GetGraphitiResult]"
    by (simp add: handleDocumentChange_def)
  from a b c d e show ?thesis by blast
qed

theorem rejected_calls_are_reported_witness:
  "\<not> isBlank ''graph'' \<and>
   handleExecute_SmartRetrievalTab ''graph'' 50 70 True ''all'' [] (Inl demoError)
     = [SetExecuting True,
        ApiCall (SmartRetrieval [(''query'', JStr ''graph''), (''top_k'', JNum 50),
                                 (''min_score'', JNum 70), (''enable_refine'', JBool True)]),
        Notice ConsoleErrorLog,
        Notice (MessageError ''Execution failed: upload 7 not found''),
        SetExecuting False] \<and>
   surfacesError demoError
     (handleExecute_SmartRetrievalTab ''graph'' 50 70 True ''all'' [] (Inl demoError))"
proof -
  have h1: "\<not> isBlank ''graph''" by (simp add: isBlank_def)
  have h2: "\<not> (''all'' = ''selected'' \<and> ([]::string list) = [])" by simp
  from rejected_calls_are_reported[OF h1 h2, of demoError 50 70 True]
  have "surfacesError demoError
     (handleExecute_SmartRetrievalTab ''graph'' 50 70 True ''all'' [] (Inl demoError))"
    by blast
  then show ?thesis
    using h1
    by (simp add: handleExecute_SmartRetrievalTab_def params_SmartRetrievalTab_def demoError_def
          detailOrMessageOrFallback_def orElse_def)
qed

text \<open>
  A rejected \<open>getGraphitiResult\<close> in \<open>handleDocumentChange\<close>: no notice and no console
  log.
\<close>

theorem document_change_swallows_rejection:
  "handleDocumentChange (Some 7) (Inr ()) (Inl demoError)
     = [ApiCall PreviewEpisodeBody, ApiCall GetGraphitiResult] \<and>
   \<not> surfacesError demoError (handleDocumentChange (Some 7) (Inr ()) (Inl demoError))"
  by (simp add: handleDocumentChange_def handleLoadEpisodeBody_def surfacesError_def)

text \<open>
  C6. The body of the smart-retrieval request has the fields \<open>query\<close>, \<open>top_k\<close>,
  \<open>min_score\<close> and \<open>enable_refine\<close>, and \<open>group_ids\<close> as follows. The smart-retrieval
  tab adds \<open>group_ids\<close>, with the selected group ids, only in the mode \<open>selected\<close>. The
  LLM generation tab always sends \<open>group_ids\<close>: the selected ids for the scope
  \<open>specified\<close>, and \<open>null\<close> otherwise, as the example body shows. The knowledge-base chat
  always sends the group ids of the documents of the knowledge base.
\<close>

theorem smart_retrieval_request_fields:
  "set (map fst (params_SmartRetrievalTab queryText topK minScore enableRefine searchMode
                   selectedGroupIds))
     = {''query'', ''top_k'', ''min_score'', ''enable_refine''}
       \<union> (if searchMode = ''selected'' then {''group_ids''} else {}) \<and>
   map_of (params_SmartRetrievalTab queryText topK minScore enableRefine searchMode
             selectedGroupIds) ''group_ids''
     = (if searchMode = ''selected'' then Some (JArr (map JStr selectedGroupIds)) else None) \<and>
   (\<not> isBlank queryText \<and> \<not> (searchMode = ''selected'' \<and> selectedGroupIds = []) \<longrightarrow>
      apiCalls (handleExecute_SmartRetrievalTab queryText topK minScore enableRefine searchMode
                  selectedGroupIds result)
        = [SmartRetrieval (params_SmartRetrievalTab queryText topK minScore enableRefine
                             searchMode selectedGroupIds)]) \<and>
   map fst (retrievalParams_LLMTab userQuery topK minScore enableRefine retrievalScope
              selectedDocumentGroupIds)
     = [''query'', ''top_k'', ''min_score'', ''group_ids'', ''enable_refine''] \<and>
   map_of (retrievalParams_LLMTab userQuery topK minScore enableRefine retrievalScope
             selectedDocumentGroupIds) ''group_ids''
     = Some (if retrievalScope = ''specified'' then JArr (map JStr selectedDocumentGroupIds)
             else JNull) \<and>
   map fst (retrievalParams_Chat userMessage topK' minScore' enableRefine' kbDocumentGroupIds)
     = [''query'', ''top_k'', ''min_score'', ''group_ids'', ''enable_refine''] \<and>
   map_of (retrievalParams_Chat userMessage topK' minScore' enableRefine' kbDocumentGroupIds)
       ''group_ids''
     = Some (JArr (map JStr kbDocumentGroupIds))"
  by (auto simp: params_SmartRetrievalTab_def retrievalParams_LLMTab_def retrievalParams_Chat_def
        handleExecute_SmartRetrievalTab_def apiCalls_append split: sum.splits)

theorem smart_retrieval_request_fields_witness:
  "\<not> isBlank ''graph'' \<and> [''g1''] \<noteq> [] \<and>
   apiCalls (handleExecute_SmartRetrievalTab ''graph'' 50 70 True ''selected'' [''g1''] (Inr ()))
     = [SmartRetrieval [(''query'', JStr ''graph''), (''top_k'', JNum 50), (''min_score'', JNum 70),
                        (''enable_refine'', JBool True), (''group_ids'', JArr [JStr ''g1''])]]"
proof -
  have h: "\<not> isBlank ''graph'' \<and> \<not> (''selected'' = ''selected'' \<and> [''g1''] = [])"
    by (simp add: isBlank_def)
  from smart_retrieval_request_fields[of "''graph''" 50 70 True "''selected''" "[''g1'']" "Inr ()"] h
  have "apiCalls (handleExecute_SmartRetrievalTab ''graph'' 50 70 True ''selected'' [''g1''] (Inr ()))
     = [SmartRetrieval (params_SmartRetrievalTab ''graph'' 50 70 True ''selected'' [''g1''])]"
    by blast
  then show ?thesis using h by (simp add: params_SmartRetrievalTab_def)
qed

text \<open>
  The body sent by the LLM generation tab for the scope of all documents.
\<close>

theorem llm_tab_sends_null_group_ids:
  "retrievalParams_LLMTab ''graph'' 50 70 True ''all'' []
     = [(''query'', JStr ''graph''), (''top_k'', JNum 50), (''min_score'', JNum 70),
        (''group_ids'', JNull), (''enable_refine'', JBool True)] \<and>
   list_ex (\<lambda>k. k = ''group_ids'') (map fst (retrievalParams_LLMTab ''graph'' 50 70 True ''all'' []))"
  by (simp add: retrievalParams_LLMTab_def)

end
